theory Spec2Isabelle
  imports Main
begin

unbundle bit_operations_syntax

section \<open>Python values, exceptions and containers\<close>

text \<open>
  The emulator is a Python program (\<^verbatim>\<open>src/emu.py\<close>). Python integers are unbounded, so
  every register and every byte is an \<^typ>\<open>int\<close>; \<^verbatim>\<open>&\<close>, \<^verbatim>\<open>|\<close>, \<^verbatim>\<open><<\<close> and \<^verbatim>\<open>>>\<close>
  are \<open>AND\<close>, \<open>OR\<close>, \<open>push_bit\<close> and \<open>drop_bit\<close> on \<^typ>\<open>int\<close> (two's complement with
  infinitely many sign bits, as in Python).

  A call either returns a value or raises; in both cases the object it works on may have
  been mutated already, so both results carry the state reached.
\<close>

datatype py_error = IndexError | ValueError

datatype ('a, 's) outcome = Raised py_error 's | Returned 'a 's

fun state_of :: "('a, 's) outcome \<Rightarrow> 's" where
  "state_of (Raised e s) = s"
| "state_of (Returned v s) = s"

fun is_returned :: "('a, 's) outcome \<Rightarrow> bool" where
  "is_returned (Raised e s) = False"
| "is_returned (Returned v s) = True"

text \<open>Sequencing of two calls: an exception of the first one propagates.\<close>

fun then_do :: "('a, 's) outcome \<Rightarrow> ('a \<Rightarrow> 's \<Rightarrow> ('b, 's) outcome) \<Rightarrow> ('b, 's) outcome" where
  "then_do (Raised e s) f = Raised e s"
| "then_do (Returned v s) f = f v s"

text \<open>
  Indexing a Python sequence of length \<open>n\<close> with \<open>i\<close>: a negative index counts from the
  end, anything outside \<open>-n \<le> i < n\<close> is an \<^verbatim>\<open>IndexError\<close>.
\<close>

definition py_index :: "nat \<Rightarrow> int \<Rightarrow> nat option" where
  "py_index n i =
     (if 0 \<le> i \<and> i < int n then Some (nat i)
      else if - int n \<le> i \<and> i < 0 then Some (nat (int n + i))
      else None)"

definition getitem :: "'a list \<Rightarrow> int \<Rightarrow> py_error + 'a" where
  "getitem xs i = (case py_index (length xs) i of None \<Rightarrow> Inl IndexError | Some k \<Rightarrow> Inr (xs ! k))"

text \<open>
  A \<^verbatim>\<open>bytearray\<close> is a list of integers in \<open>0..255\<close>. Storing a cell checks the value
  (\<^verbatim>\<open>ValueError: byte must be in range(0, 256)\<close>) and then the index.
\<close>

type_synonym bytearray = "int list"

definition is_byte :: "int \<Rightarrow> bool" where
  "is_byte v \<longleftrightarrow> 0 \<le> v \<and> v < 256"

definition bytearray_setitem :: "bytearray \<Rightarrow> int \<Rightarrow> int \<Rightarrow> py_error + bytearray" where
  "bytearray_setitem xs i v =
     (if \<not> is_byte v then Inl ValueError
      else case py_index (length xs) i of None \<Rightarrow> Inl IndexError | Some k \<Rightarrow> Inr (xs[k := v]))"

text \<open>\<^verbatim>\<open>range(n)\<close>.\<close>

definition range :: "nat \<Rightarrow> int list" where
  "range n = map int [0..<n]"

text \<open>
  A \<^verbatim>\<open>for\<close> loop over a list of values whose body works on the state \<open>s\<close>; an exception
  in the body ends the loop.
\<close>

fun for_loop :: "'i list \<Rightarrow> ('i \<Rightarrow> 's \<Rightarrow> (unit, 's) outcome) \<Rightarrow> 's \<Rightarrow> (unit, 's) outcome" where
  "for_loop [] body s = Returned () s"
| "for_loop (i # is) body s =
     (case body i s of
        Raised e s' \<Rightarrow> Raised e s'
      | Returned u s' \<Rightarrow> for_loop is body s')"

section \<open>The CPU\<close>

text \<open>
  \<^verbatim>\<open>self.registers\<close> is a dictionary with the six fixed keys below; \<^verbatim>\<open>self.memory\<close> is
  \<^verbatim>\<open>bytearray(0x10000)\<close>. The dispatch table \<^verbatim>\<open>self.opcodes\<close> never changes after
  construction and is the constant \<open>opcodes\<close> further down.
\<close>

datatype reg = A | X | Y | PC | SP | P

record CPU =
  registers :: "reg \<Rightarrow> int"
  memory :: bytearray
  clock_cycles :: int
  running :: bool

text \<open>\<open>CPU_init\<close> is the object that \<^verbatim>\<open>CPU()\<close> constructs.\<close>

definition CPU_init :: CPU where
  "CPU_init =
     \<lparr> registers = (\<lambda>r. 0)(PC := 0x8000, SP := 0x1FF),
       memory = replicate 0x10000 0,
       clock_cycles = 0,
       running = True \<rparr>"

definition read_byte :: "int \<Rightarrow> CPU \<Rightarrow> (int, CPU) outcome" where
  "read_byte address s =
     (case getitem (memory s) address of
        Inl e \<Rightarrow> Raised e s
      | Inr v \<Rightarrow> Returned v s)"

definition read_word :: "int \<Rightarrow> CPU \<Rightarrow> (int, CPU) outcome" where
  "read_word address s =
     (case getitem (memory s) address of
        Inl e \<Rightarrow> Raised e s
      | Inr lo \<Rightarrow>
          (case getitem (memory s) (address + 1) of
             Inl e \<Rightarrow> Raised e s
           | Inr hi \<Rightarrow> Returned (push_bit 8 hi OR lo) s))"

definition reset :: "CPU \<Rightarrow> (unit, CPU) outcome" where
  "reset s =
     then_do (read_word 0xFFFC s)
       (\<lambda>w s. Returned () (s\<lparr>registers := (registers s)(PC := w)\<rparr>))"

definition fetch_byte :: "CPU \<Rightarrow> (int, CPU) outcome" where
  "fetch_byte s =
     (case getitem (memory s) (registers s PC) of
        Inl e \<Rightarrow> Raised e s
      | Inr v \<Rightarrow> Returned v (s\<lparr>registers := (registers s)(PC := registers s PC + 1)\<rparr>))"

definition write_byte :: "int \<Rightarrow> int \<Rightarrow> CPU \<Rightarrow> (unit, CPU) outcome" where
  "write_byte address v s =
     (case bytearray_setitem (memory s) address (v AND 0xFF) of
        Inl e \<Rightarrow> Raised e s
      | Inr m \<Rightarrow> Returned () (s\<lparr>memory := m\<rparr>))"

definition write_word :: "int \<Rightarrow> int \<Rightarrow> CPU \<Rightarrow> (unit, CPU) outcome" where
  "write_word address v s =
     (case bytearray_setitem (memory s) address (v AND 0xFF) of
        Inl e \<Rightarrow> Raised e s
      | Inr m \<Rightarrow>
          (case bytearray_setitem m (address + 1) (drop_bit 8 v AND 0xFF) of
             Inl e \<Rightarrow> Raised e (s\<lparr>memory := m\<rparr>)
           | Inr m' \<Rightarrow> Returned () (s\<lparr>memory := m'\<rparr>)))"

text \<open>
  \<^verbatim>\<open>update_flags\<close> cannot raise. The two \<^verbatim>\<open>if\<close> statements run one after the other;
  the second tests the truth value of \<^verbatim>\<open>value & 0x80\<close>, that is, whether it is nonzero.
\<close>

definition update_flags :: "int \<Rightarrow> CPU \<Rightarrow> CPU" where
  "update_flags v s =
     (let p0 = registers s P AND 0x7D;
          p1 = (if v = 0 then p0 OR 0x02 else p0);
          p2 = (if v AND 0x80 \<noteq> 0 then p1 OR 0x80 else p1)
      in s\<lparr>registers := (registers s)(P := p2)\<rparr>)"

text \<open>
  The instruction handlers. \<open>fetch_addr\<close> names the expression
  \<^verbatim>\<open>self.fetch_byte() | (self.fetch_byte() << 8)\<close> that three handlers share; Python
  evaluates the left operand first, so the first byte fetched is the low byte.
\<close>

definition fetch_addr :: "CPU \<Rightarrow> (int, CPU) outcome" where
  "fetch_addr s =
     then_do (fetch_byte s) (\<lambda>lo s.
     then_do (fetch_byte s) (\<lambda>hi s.
       Returned (lo OR push_bit 8 hi) s))"

definition LDA_immediate :: "CPU \<Rightarrow> (int, CPU) outcome" where
  "LDA_immediate s =
     then_do (fetch_byte s) (\<lambda>v s.
       Returned 2 (update_flags v (s\<lparr>registers := (registers s)(A := v)\<rparr>)))"

definition LDA_absolute :: "CPU \<Rightarrow> (int, CPU) outcome" where
  "LDA_absolute s =
     then_do (fetch_addr s) (\<lambda>addr s.
     then_do (read_byte addr s) (\<lambda>v s.
       Returned 4 (update_flags v (s\<lparr>registers := (registers s)(A := v)\<rparr>))))"

definition STA_absolute :: "CPU \<Rightarrow> (int, CPU) outcome" where
  "STA_absolute s =
     then_do (fetch_addr s) (\<lambda>addr s.
     then_do (write_byte addr (registers s A) s) (\<lambda>u s.
       Returned 4 s))"

definition JMP_absolute :: "CPU \<Rightarrow> (int, CPU) outcome" where
  "JMP_absolute s =
     then_do (fetch_addr s) (\<lambda>addr s.
       Returned 3 (s\<lparr>registers := (registers s)(PC := addr)\<rparr>))"

definition NOP :: "CPU \<Rightarrow> (int, CPU) outcome" where
  "NOP s = Returned 2 s"

definition BRK :: "CPU \<Rightarrow> (int, CPU) outcome" where
  "BRK s = Returned 7 (s\<lparr>running := False\<rparr>)"

definition opcodes :: "int \<rightharpoonup> (CPU \<Rightarrow> (int, CPU) outcome)" where
  "opcodes =
     [0xA9 \<mapsto> LDA_immediate,
      0xAD \<mapsto> LDA_absolute,
      0x8D \<mapsto> STA_absolute,
      0x4C \<mapsto> JMP_absolute,
      0xEA \<mapsto> NOP,
      0x00 \<mapsto> BRK]"

definition execute :: "CPU \<Rightarrow> (int, CPU) outcome" where
  "execute s =
     then_do (fetch_byte s) (\<lambda>opcode s.
       case opcodes opcode of
         Some handler \<Rightarrow>
           then_do (handler s) (\<lambda>cycles s.
             Returned cycles (s\<lparr>clock_cycles := clock_cycles s + cycles\<rparr>))
       | None \<Rightarrow> Returned 0 s)"

text \<open>
  The CPU as the program keeps it: \<^verbatim>\<open>bytearray(0x10000)\<close> for the memory, whose cells
  are bytes, and a byte in the accumulator.
\<close>

definition cpu_inv :: "CPU \<Rightarrow> bool" where
  "cpu_inv s \<longleftrightarrow>
     length (memory s) = 0x10000 \<and> (\<forall>v \<in> set (memory s). is_byte v) \<and> is_byte (registers s A)"

text \<open>
  Calls made on a CPU from outside, one after the other. \<open>do_call\<close> gives the state the
  call leaves behind, whether it returned or raised, as a caller that goes on after
  an exception finds it.
\<close>

datatype cpu_call = Execute | Write_byte int int | Write_word int int

fun do_call :: "cpu_call \<Rightarrow> CPU \<Rightarrow> CPU" where
  "do_call Execute s = state_of (execute s)"
| "do_call (Write_byte address v) s = state_of (write_byte address v s)"
| "do_call (Write_word address v) s = state_of (write_word address v s)"

fun run_calls :: "cpu_call list \<Rightarrow> CPU \<Rightarrow> CPU" where
  "run_calls [] s = s"
| "run_calls (c # cs) s = run_calls cs (do_call c s)"

text \<open>\<open>jmp_at s pc target\<close>: the three bytes at \<open>pc\<close> are the instruction \<^verbatim>\<open>JMP target\<close>.\<close>

definition jmp_at :: "CPU \<Rightarrow> int \<Rightarrow> int \<Rightarrow> bool" where
  "jmp_at s pc target \<longleftrightarrow>
     0 \<le> pc \<and> pc + 2 < int (length (memory s)) \<and>
     memory s ! nat pc = 0x4C \<and>
     is_byte (memory s ! nat (pc + 1)) \<and> is_byte (memory s ! nat (pc + 2)) \<and>
     target = memory s ! nat (pc + 1) + 256 * memory s ! nat (pc + 2)"

section \<open>The PPU\<close>

text \<open>
  \<^verbatim>\<open>"%02x" % n\<close>: lower-case hexadecimal, padded with zeros to two characters, a minus
  sign first for a negative number.
\<close>

definition hex_digit :: "nat \<Rightarrow> char" where
  "hex_digit d = ''0123456789abcdef'' ! d"

fun hex :: "nat \<Rightarrow> string" where
  "hex n = (if n < 16 then [hex_digit n] else hex (n div 16) @ [hex_digit (n mod 16)])"

definition format_02x :: "int \<Rightarrow> string" where
  "format_02x n =
     (if n < 0 then CHR ''-'' # hex (nat (- n))
      else if n < 16 then CHR ''0'' # hex (nat n)
      else hex (nat n))"

definition hex_color :: "int \<times> int \<times> int \<Rightarrow> string" where
  "hex_color color = (case color of (r, g, b) \<Rightarrow> ''#'' @ format_02x r @ format_02x g @ format_02x b)"

text \<open>
  The canvas is the list of items drawn on it, oldest first; the only items are the
  rectangles of \<^verbatim>\<open>create_rectangle(x0, y0, x1, y1, fill=..., outline="")\<close>.

  \<open>accesses\<close> is not a field of the source: it is a log of every index with which
  the PPU subscripts \<^verbatim>\<open>self.vram\<close> and \<^verbatim>\<open>self.palette\<close> while rendering, in order and
  whether or not the subscript raises, kept so that statements about the addresses read
  can be made. \<open>TileMapRead\<close> marks the read of \<^verbatim>\<open>self.vram\<close> in \<^verbatim>\<open>render_frame\<close>,
  \<open>PatternRead\<close> the two reads in \<^verbatim>\<open>render_tile\<close>, and \<open>PaletteRead\<close> the subscript of
  \<^verbatim>\<open>self.palette\<close>. The fields \<^verbatim>\<open>width\<close> and \<^verbatim>\<open>height\<close>
  are constants used once to size the widget and are left out.
\<close>

datatype canvas_item = Rectangle int int int int string

datatype access = TileMapRead int | PatternRead int | PaletteRead int

record PPU =
  vram :: bytearray
  palette :: "(int \<times> int \<times> int) list"
  canvas :: "canvas_item list"
  accesses :: "access list"

text \<open>\<open>PPU_init\<close> is the object that \<^verbatim>\<open>PPU(canvas)\<close> constructs, with an empty canvas.\<close>

definition PPU_init :: PPU where
  "PPU_init =
     \<lparr> vram = replicate 0x8000 0,
       palette = replicate 256 (0, 0, 0),
       canvas = [],
       accesses = [] \<rparr>"

definition vram_read :: "(int \<Rightarrow> access) \<Rightarrow> int \<Rightarrow> PPU \<Rightarrow> (int, PPU) outcome" where
  "vram_read tag i p =
     (case getitem (vram p) i of
        Inl e \<Rightarrow> Raised e (p\<lparr>accesses := accesses p @ [tag i]\<rparr>)
      | Inr v \<Rightarrow> Returned v (p\<lparr>accesses := accesses p @ [tag i]\<rparr>))"

definition palette_read :: "int \<Rightarrow> PPU \<Rightarrow> (int \<times> int \<times> int, PPU) outcome" where
  "palette_read i p =
     (case getitem (palette p) i of
        Inl e \<Rightarrow> Raised e (p\<lparr>accesses := accesses p @ [PaletteRead i]\<rparr>)
      | Inr c \<Rightarrow> Returned c (p\<lparr>accesses := accesses p @ [PaletteRead i]\<rparr>))"

text \<open>
  \<open>color_index\<close> is the expression assigned to \<^verbatim>\<open>color_idx\<close>; \<^verbatim>\<open><<\<close> binds tighter than
  \<^verbatim>\<open>|\<close>. \<open>render_pixel\<close> is the body of the loop over \<^verbatim>\<open>tx\<close>; the source's variable
  \<^verbatim>\<open>bit\<close> is \<open>bitno\<close> here. The shift count \<^verbatim>\<open>7 - tx\<close> is never negative there, since
  \<^verbatim>\<open>tx\<close> comes from \<^verbatim>\<open>range(8)\<close>.
\<close>

definition color_index :: "int \<Rightarrow> int \<Rightarrow> int \<Rightarrow> int" where
  "color_index plane0 plane1 bitno =
     push_bit 1 (drop_bit (nat bitno) plane1 AND 1) OR (drop_bit (nat bitno) plane0 AND 1)"

definition render_pixel :: "int \<Rightarrow> int \<Rightarrow> int \<Rightarrow> int \<Rightarrow> int \<Rightarrow> int \<Rightarrow> PPU \<Rightarrow> (unit, PPU) outcome" where
  "render_pixel x y ty plane0 plane1 tx p =
     (let bitno = 7 - tx;
          color_idx = color_index plane0 plane1 bitno
      in if color_idx > 0 then
           then_do (palette_read color_idx p) (\<lambda>color p.
             Returned ()
               (p\<lparr>canvas := canvas p @
                  [Rectangle (x + tx) (y + ty) (x + tx + 1) (y + ty + 1) (hex_color color)]\<rparr>))
         else Returned () p)"

text \<open>
  The loop over \<^verbatim>\<open>ty\<close> of \<^verbatim>\<open>render_tile\<close>, with the local variable \<^verbatim>\<open>tile_addr\<close>
  that it advances by two in every round.
\<close>

fun render_tile_rows :: "int \<Rightarrow> int \<Rightarrow> int \<Rightarrow> int list \<Rightarrow> PPU \<Rightarrow> (unit, PPU) outcome" where
  "render_tile_rows x y tile_addr [] p = Returned () p"
| "render_tile_rows x y tile_addr (ty # tys) p =
     (case vram_read PatternRead tile_addr p of
        Raised e p \<Rightarrow> Raised e p
      | Returned plane0 p \<Rightarrow>
     (case vram_read PatternRead (tile_addr + 1) p of
        Raised e p \<Rightarrow> Raised e p
      | Returned plane1 p \<Rightarrow>
     (case for_loop (range 8) (render_pixel x y ty plane0 plane1) p of
        Raised e p \<Rightarrow> Raised e p
      | Returned u p \<Rightarrow> render_tile_rows x y (tile_addr + 2) tys p)))"

definition render_tile :: "int \<Rightarrow> int \<Rightarrow> int \<Rightarrow> PPU \<Rightarrow> (unit, PPU) outcome" where
  "render_tile x y tile_idx p = render_tile_rows x y (tile_idx * 16) (range 8) p"

text \<open>\<open>render_cell\<close> is the body of the loop over \<^verbatim>\<open>x\<close> of \<^verbatim>\<open>render_frame\<close>.\<close>

definition render_cell :: "int \<Rightarrow> int \<Rightarrow> PPU \<Rightarrow> (unit, PPU) outcome" where
  "render_cell y x p =
     then_do (vram_read TileMapRead (y * 32 + x) p) (\<lambda>tile_idx p.
       render_tile (x * 8) (y * 8) tile_idx p)"

definition render_frame :: "PPU \<Rightarrow> (unit, PPU) outcome" where
  "render_frame p =
     for_loop (range 28) (\<lambda>y. for_loop (range 32) (\<lambda>x. render_cell y x))
       (p\<lparr>canvas := []\<rparr>)"

text \<open>
  What the claims about rendering promise of the log: a tile-map read below 896, a
  pattern read at most at 4095, a palette index from 1 to 3.
\<close>

fun access_ok :: "access \<Rightarrow> bool" where
  "access_ok (TileMapRead i) \<longleftrightarrow> 0 \<le> i \<and> i < 896"
| "access_ok (PatternRead i) \<longleftrightarrow> 0 \<le> i \<and> i \<le> 4095"
| "access_ok (PaletteRead i) \<longleftrightarrow> 1 \<le> i \<and> i \<le> 3"

text \<open>
  The PPU as the program keeps it: \<^verbatim>\<open>bytearray(0x8000)\<close> for the video memory, whose
  cells are bytes, and a palette that has 256 entries at construction and 4 after
  \<^verbatim>\<open>setup_test_environment\<close>.
\<close>

definition wf_ppu :: "PPU \<Rightarrow> bool" where
  "wf_ppu p \<longleftrightarrow>
     length (vram p) = 0x8000 \<and> (\<forall>v \<in> set (vram p). is_byte v) \<and> 4 \<le> length (palette p)"

text \<open>
  \<open>renders_from p0 p\<close>: \<open>p\<close> has the video memory and palette of \<open>p0\<close>, and its log is
  the log of \<open>p0\<close> followed by accesses that are all within the bounds above.
\<close>

definition renders_from :: "PPU \<Rightarrow> PPU \<Rightarrow> bool" where
  "renders_from p0 p \<longleftrightarrow>
     vram p = vram p0 \<and> palette p = palette p0 \<and>
     (\<exists>log. accesses p = accesses p0 @ log \<and> (\<forall>a \<in> set log. access_ok a))"

section \<open>The emulator and its frame scheduler\<close>

text \<open>
  Of \<^verbatim>\<open>SNESEmulator\<close> the model keeps the two engines and the flag \<^verbatim>\<open>self.running\<close>
  (here \<open>emu_running\<close>, since the CPU has a field \<^verbatim>\<open>running\<close> of its own). The widgets,
  the status line and the register display of \<^verbatim>\<open>update_debug_info\<close> only show values
  and are left out, and so are the wall-clock readings \<^verbatim>\<open>last_time\<close> and the delay
  computed from them.

  \<open>trace\<close> is not a field of the source: it lists, in order, the calls of
  \<^verbatim>\<open>self.cpu.execute()\<close> (\<open>Exec\<close>), of \<^verbatim>\<open>self.ppu.render_frame()\<close> (\<open>Render\<close>) and of
  \<^verbatim>\<open>self.root.after(delay, self.run_frame)\<close> (\<open>Schedule\<close>), which hands the next frame
  tick to the timer of the window toolkit. A frame tick is one call of \<open>run_frame\<close>.
\<close>

datatype event = Exec | Render | Schedule

record SNESEmulator =
  cpu :: CPU
  ppu :: PPU
  emu_running :: bool
  trace :: "event list"

definition on_cpu :: "(CPU \<Rightarrow> ('a, CPU) outcome) \<Rightarrow> SNESEmulator \<Rightarrow> ('a, SNESEmulator) outcome" where
  "on_cpu f e =
     (case f (cpu e) of
        Raised err c \<Rightarrow> Raised err (e\<lparr>cpu := c\<rparr>)
      | Returned v c \<Rightarrow> Returned v (e\<lparr>cpu := c\<rparr>))"

definition on_ppu :: "(PPU \<Rightarrow> ('a, PPU) outcome) \<Rightarrow> SNESEmulator \<Rightarrow> ('a, SNESEmulator) outcome" where
  "on_ppu f e =
     (case f (ppu e) of
        Raised err p \<Rightarrow> Raised err (e\<lparr>ppu := p\<rparr>)
      | Returned v p \<Rightarrow> Returned v (e\<lparr>ppu := p\<rparr>))"

text \<open>The direct stores \<^verbatim>\<open>self.ppu.vram[i] = v\<close> and \<^verbatim>\<open>self.cpu.memory[i] = v\<close>.\<close>

definition vram_store :: "int \<Rightarrow> int \<Rightarrow> SNESEmulator \<Rightarrow> (unit, SNESEmulator) outcome" where
  "vram_store i v e =
     (case bytearray_setitem (vram (ppu e)) i v of
        Inl err \<Rightarrow> Raised err e
      | Inr m \<Rightarrow> Returned () (e\<lparr>ppu := (ppu e)\<lparr>vram := m\<rparr>\<rparr>))"

definition memory_store :: "int \<Rightarrow> int \<Rightarrow> SNESEmulator \<Rightarrow> (unit, SNESEmulator) outcome" where
  "memory_store i v e =
     (case bytearray_setitem (memory (cpu e)) i v of
        Inl err \<Rightarrow> Raised err e
      | Inr m \<Rightarrow> Returned () (e\<lparr>cpu := (cpu e)\<lparr>memory := m\<rparr>\<rparr>))"

definition program :: "int list" where
  "program =
     [0xA9, 0x01,
      0x8D, 0x00, 0x20,
      0xA9, 0x3F,
      0x8D, 0x06, 0x20,
      0xA9, 0x00,
      0x8D, 0x06, 0x20,
      0x4C, 0x00, 0x80]"

definition setup_test_environment :: "SNESEmulator \<Rightarrow> (unit, SNESEmulator) outcome" where
  "setup_test_environment e =
     then_do
       (for_loop (range 256)
          (\<lambda>i e. then_do (vram_store (i * 16) 0xAA e) (\<lambda>u e. vram_store (i * 16 + 1) 0x55 e)) e)
       (\<lambda>u e.
     then_do
       (for_loop (range 28) (\<lambda>y. for_loop (range 32)
          (\<lambda>x. vram_store (0x1000 + y * 32 + x) ((x + y) mod 256)))
          (e\<lparr>ppu := (ppu e)\<lparr>palette := [(0, 0, 0), (255, 0, 0), (0, 255, 0), (0, 0, 255)]\<rparr>\<rparr>))
       (\<lambda>u e.
     then_do
       (for_loop (enumerate 0 program) (\<lambda>(i, byte). memory_store (0x8000 + int i) byte) e)
       (\<lambda>u e.
     on_cpu (write_word 0xFFFC 0x8000) e)))"

text \<open>
  The loop of \<^verbatim>\<open>run_frame\<close> that runs the CPU for one frame; it returns the value of the
  local variable \<^verbatim>\<open>cycles\<close> at its end.
\<close>

definition target_cycles :: int where
  "target_cycles = 1364"

function cpu_loop :: "int \<Rightarrow> SNESEmulator \<Rightarrow> (int, SNESEmulator) outcome" where
  "cpu_loop cycles e =
     (if cycles < target_cycles \<and> running (cpu e) then
        (case on_cpu execute (e\<lparr>trace := trace e @ [Exec]\<rparr>) of
           Raised err e' \<Rightarrow> Raised err e'
         | Returned n e' \<Rightarrow> cpu_loop (cycles + n) e')
      else Returned cycles e)"
  by pat_completeness auto

definition run_frame :: "SNESEmulator \<Rightarrow> (unit, SNESEmulator) outcome" where
  "run_frame e =
     (if \<not> emu_running e then Returned () e
      else
        then_do (cpu_loop 0 e) (\<lambda>cycles e.
        then_do (on_ppu render_frame (e\<lparr>trace := trace e @ [Render]\<rparr>)) (\<lambda>u e.
          Returned () (e\<lparr>trace := trace e @ [Schedule]\<rparr>))))"

definition start :: "SNESEmulator \<Rightarrow> (unit, SNESEmulator) outcome" where
  "start e =
     (if \<not> emu_running e then
        run_frame (e\<lparr>emu_running := True, cpu := (cpu e)\<lparr>running := True\<rparr>\<rparr>)
      else Returned () e)"

definition stop :: "SNESEmulator \<Rightarrow> SNESEmulator" where
  "stop e = (if emu_running e then e\<lparr>emu_running := False\<rparr> else e)"

definition reset_emulator :: "SNESEmulator \<Rightarrow> (unit, SNESEmulator) outcome" where
  "reset_emulator e = setup_test_environment ((stop e)\<lparr>cpu := CPU_init\<rparr>)"

definition close_rom :: "SNESEmulator \<Rightarrow> SNESEmulator" where
  "close_rom e = (let e = (stop e)\<lparr>cpu := CPU_init\<rparr> in e\<lparr>ppu := (ppu e)\<lparr>canvas := []\<rparr>\<rparr>)"

definition SNESEmulator_init :: "(unit, SNESEmulator) outcome" where
  "SNESEmulator_init =
     setup_test_environment
       \<lparr> cpu = CPU_init, ppu = PPU_init, emu_running = False, trace = [] \<rparr>"

text \<open>
  An emulator as the program keeps it: the 64 KiB byte array of the CPU and a
  well-formed PPU.
\<close>

definition wf_emulator :: "SNESEmulator \<Rightarrow> bool" where
  "wf_emulator e \<longleftrightarrow>
     length (memory (cpu e)) = 0x10000 \<and> (\<forall>v \<in> set (memory (cpu e)). is_byte v) \<and>
     wf_ppu (ppu e)"

text \<open>What \<open>setup_test_environment\<close> keeps of the emulator \<open>e0\<close> it starts from.\<close>

definition setup_keeps :: "SNESEmulator \<Rightarrow> SNESEmulator \<Rightarrow> bool" where
  "setup_keeps e0 e \<longleftrightarrow>
     wf_emulator e \<and> emu_running e = emu_running e0 \<and> trace e = trace e0 \<and>
     running (cpu e) = running (cpu e0) \<and> registers (cpu e) = registers (cpu e0) \<and>
     clock_cycles (cpu e) = clock_cycles (cpu e0) \<and> canvas (ppu e) = canvas (ppu e0)"

section \<open>Concrete states\<close>

text \<open>States on which the statements below are evaluated.\<close>

text \<open>A fresh CPU whose first opcode byte, at the boot address, is \<open>0xFF\<close>.\<close>

definition cpu_unknown_opcode :: CPU where
  "cpu_unknown_opcode = CPU_init\<lparr>memory := (memory CPU_init)[0x8000 := 0xFF]\<rparr>"

text \<open>A fresh CPU after \<^verbatim>\<open>write_word(0xFFFC, 0x9000)\<close>.\<close>

definition cpu_vector_9000 :: CPU where
  "cpu_vector_9000 = state_of (write_word 0xFFFC 0x9000 CPU_init)"

text \<open>A fresh CPU with every flag bit but the Negative one set.\<close>

definition cpu_flags_7F :: CPU where
  "cpu_flags_7F = CPU_init\<lparr>registers := (registers CPU_init)(P := 0x7F)\<rparr>"

text \<open>A fresh CPU with \<^verbatim>\<open>JMP $8000\<close> at \<open>0x9000\<close> and \<open>PC\<close> there.\<close>

definition cpu_jmp :: CPU where
  "cpu_jmp = CPU_init\<lparr>registers := (registers CPU_init)(PC := 0x9000),
     memory := (memory CPU_init)[0x9000 := 0x4C, 0x9001 := 0x00, 0x9002 := 0x80]\<rparr>"

text \<open>
  Three calls on a CPU: a word store of a value wider than 16 bits, a byte store of a
  negative value, and one instruction.
\<close>

definition calls_example :: "cpu_call list" where
  "calls_example = [Write_word 0xFFFC 0x12345, Write_byte 0x8000 (- 1), Execute]"

text \<open>A fresh CPU with \<open>PC\<close> at the last address, \<open>0xFFFF\<close>, and a \<^verbatim>\<open>NOP\<close> there.\<close>

definition cpu_at_top :: CPU where
  "cpu_at_top = CPU_init\<lparr>registers := (registers CPU_init)(PC := 0xFFFF),
     memory := (memory CPU_init)[0xFFFF := 0xEA]\<rparr>"


text \<open>
  A running emulator whose CPU is fresh but for its memory, where every byte from
  \<open>0x8000\<close> on is a \<^verbatim>\<open>NOP\<close>.
\<close>

definition emu_nops :: SNESEmulator where
  "emu_nops =
     \<lparr> cpu = CPU_init\<lparr>memory := replicate 0x8000 0 @ replicate 0x8000 0xEA\<rparr>,
       ppu = PPU_init, emu_running = True, trace = [] \<rparr>"

text \<open>
  A session at the window: the emulator as constructed, then \<^verbatim>\<open>Close ROM\<close>, which leaves
  a fresh CPU whose memory is all zero, so that the byte at the boot address is
  \<^verbatim>\<open>BRK\<close>; then \<^verbatim>\<open>Start\<close>, whose first frame executes that \<^verbatim>\<open>BRK\<close>; then the frame tick
  that this frame scheduled; then \<^verbatim>\<open>Pause\<close> and \<^verbatim>\<open>Start\<close> again.
\<close>

definition emu_closed :: SNESEmulator where
  "emu_closed = close_rom (state_of SNESEmulator_init)"

definition emu_halted :: SNESEmulator where
  "emu_halted = state_of (start emu_closed)"

definition emu_halted_tick :: SNESEmulator where
  "emu_halted_tick = state_of (run_frame emu_halted)"

definition emu_restarted :: SNESEmulator where
  "emu_restarted = state_of (start (stop emu_halted_tick))"

section \<open>Basic facts about the containers and the CPU\<close>

lemma getitem_nonneg: "0 \<le> i \<Longrightarrow> i < int (length xs) \<Longrightarrow> getitem xs i = Inr (xs ! nat i)"
  by (simp add: getitem_def py_index_def)

lemma getitem_Inr_D:
  "getitem xs i = Inr v \<Longrightarrow> v \<in> set xs \<and> i < int (length xs) \<and> - int (length xs) \<le> i"
  by (auto simp: getitem_def py_index_def split: if_splits)

lemma getitem_Inl_iff:
  "getitem xs i = Inl e \<longleftrightarrow> e = IndexError \<and> (i < - int (length xs) \<or> int (length xs) \<le> i)"
  by (auto simp: getitem_def py_index_def split: if_splits)

lemma bytearray_setitem_Inr_D:
  "bytearray_setitem xs i v = Inr ys \<Longrightarrow>
     length ys = length xs \<and> is_byte v \<and> set ys \<subseteq> insert v (set xs)"
  using set_update_subset_insert[of xs _ v]
  by (auto simp: bytearray_setitem_def py_index_def split: if_splits)

lemma bytearray_setitem_nonneg:
  "is_byte v \<Longrightarrow> 0 \<le> i \<Longrightarrow> i < int (length xs) \<Longrightarrow> bytearray_setitem xs i v = Inr (xs[nat i := v])"
  by (simp add: bytearray_setitem_def py_index_def)

lemma then_do_Returned_iff:
  "then_do m f = Returned v s' \<longleftrightarrow> (\<exists>a s1. m = Returned a s1 \<and> f a s1 = Returned v s')"
  by (cases m) auto

lemma fetch_byte_Returned_iff:
  "fetch_byte s = Returned v s' \<longleftrightarrow>
     getitem (memory s) (registers s PC) = Inr v \<and>
     s' = s\<lparr>registers := (registers s)(PC := registers s PC + 1)\<rparr>"
  by (auto simp: fetch_byte_def split: sum.splits)

lemma fetch_addr_Returned_D:
  "fetch_addr s = Returned a s' \<Longrightarrow> memory s' = memory s \<and> running s' = running s"
  by (auto simp: fetch_addr_def then_do_Returned_iff fetch_byte_Returned_iff)

lemma read_byte_Returned_iff:
  "read_byte a s = Returned v s' \<longleftrightarrow> getitem (memory s) a = Inr v \<and> s' = s"
  by (cases "getitem (memory s) a") (auto simp: read_byte_def)

lemma write_byte_Returned_iff:
  "write_byte a v s = Returned u s' \<longleftrightarrow>
     (\<exists>m. bytearray_setitem (memory s) a (v AND 0xFF) = Inr m \<and> s' = s\<lparr>memory := m\<rparr>)"
  by (cases "bytearray_setitem (memory s) a (v AND 0xFF)") (auto simp: write_byte_def)

lemma update_flags_memory [simp]: "memory (update_flags v s) = memory s"
  by (simp add: update_flags_def Let_def)

lemma opcodes_Some_D:
  "opcodes op = Some h \<Longrightarrow>
     h = LDA_immediate \<or> h = LDA_absolute \<or> h = STA_absolute \<or> h = JMP_absolute \<or> h = NOP \<or> h = BRK"
  by (auto simp: opcodes_def split: if_splits)

lemma handler_cycles:
  assumes "opcodes op = Some h" and "h s = Returned c s'"
  shows "2 \<le> c \<and> length (memory s') = length (memory s)"
  using opcodes_Some_D[OF assms(1)] assms(2)
  by (auto simp: LDA_immediate_def LDA_absolute_def STA_absolute_def JMP_absolute_def NOP_def
      BRK_def then_do_Returned_iff fetch_byte_Returned_iff read_byte_Returned_iff
      write_byte_Returned_iff
      dest!: fetch_addr_Returned_D bytearray_setitem_Inr_D)

lemma execute_progress:
  assumes "execute s = Returned c s'"
  shows "length (memory s') = length (memory s) \<and>
         (2 \<le> c \<or> (c = 0 \<and> registers s' PC = registers s PC + 1 \<and>
                      registers s PC < int (length (memory s))))"
proof -
  from assms obtain op s1 where f: "fetch_byte s = Returned op s1"
    and r: "(case opcodes op of
         Some handler \<Rightarrow>
           then_do (handler s1) (\<lambda>cycles s.
             Returned cycles (s\<lparr>clock_cycles := clock_cycles s + cycles\<rparr>))
       | None \<Rightarrow> Returned 0 s1) = Returned c s'"
    by (auto simp: execute_def then_do_Returned_iff)
  from f have g: "getitem (memory s) (registers s PC) = Inr op"
    and s1: "s1 = s\<lparr>registers := (registers s)(PC := registers s PC + 1)\<rparr>"
    by (auto simp: fetch_byte_Returned_iff)
  show ?thesis
  proof (cases "opcodes op")
    case None
    with r s1 getitem_Inr_D[OF g] show ?thesis by auto
  next
    case (Some h)
    with r obtain s2 where h: "h s1 = Returned c s2"
      and s': "s' = s2\<lparr>clock_cycles := clock_cycles s2 + c\<rparr>"
      by (auto simp: then_do_Returned_iff)
    from handler_cycles[OF Some h] s1 s' show ?thesis by simp
  qed
qed

text \<open>
  The frame loop always ends: an instruction costs at least two cycles, and an unknown
  opcode, which costs none, moves \<open>PC\<close> one byte closer to the end of the memory, where
  the next fetch raises.
\<close>

termination cpu_loop
proof (relation "measures [\<lambda>(cycles, e). nat (target_cycles - cycles),
    \<lambda>(cycles, e). nat (int (length (memory (cpu e))) - registers (cpu e) PC)]")
  show "wf (measures [\<lambda>(cycles, e). nat (target_cycles - cycles),
    \<lambda>(cycles, e). nat (int (length (memory (cpu e))) - registers (cpu e) PC)])"
    by simp
next
  fix cycles :: int and e e' :: SNESEmulator and n :: int
  assume a: "cycles < target_cycles \<and> running (cpu e)"
    and b: "on_cpu execute (e\<lparr>trace := trace e @ [Exec]\<rparr>) = Returned n e'"
  from b obtain c where c: "execute (cpu e) = Returned n c" and e': "cpu e' = c"
    by (auto simp: on_cpu_def split: outcome.splits)
  from execute_progress[OF c] a e'
  show "((cycles + n, e'), cycles, e) \<in> measures [\<lambda>(cycles, e). nat (target_cycles - cycles),
    \<lambda>(cycles, e). nat (int (length (memory (cpu e))) - registers (cpu e) PC)]"
    by auto
qed

declare cpu_loop.simps [simp del]

lemma byte_high_bits: "0 \<le> (p::int) \<Longrightarrow> p \<le> 255 \<Longrightarrow> 8 \<le> n \<Longrightarrow> \<not> bit p n"
proof -
  assume a: "0 \<le> p" "p \<le> 255" "8 \<le> n"
  have "p < 2 ^ 8" using a by simp
  also have "(2::int) ^ 8 \<le> 2 ^ n" using a by (intro power_increasing) auto
  finally have "p div 2 ^ n = 0" using a by simp
  then show ?thesis by (simp add: bit_iff_odd)
qed

lemma word_of_bytes: 
  assumes "is_byte lo"
  shows "push_bit 8 hi OR lo = 256 * hi + lo" and "lo OR push_bit 8 hi = lo + 256 * hi"
proof -
  have d: "\<not> bit (push_bit 8 hi) n \<or> \<not> bit lo n" for n
    using byte_high_bits[of lo n] assms by (cases "8 \<le> n") (auto simp: is_byte_def bit_push_bit_iff)
  have "push_bit 8 hi + lo = push_bit 8 hi OR lo"
    by (rule disjunctive_add) (use d in blast)
  then show "push_bit 8 hi OR lo = 256 * hi + lo" by (simp add: push_bit_eq_mult)
  then show "lo OR push_bit 8 hi = lo + 256 * hi" by (simp add: or.commute)
qed

lemma cpu_unknown_opcode_simps:
  "registers cpu_unknown_opcode PC = 0x8000"
  "getitem (memory cpu_unknown_opcode) 0x8000 = Inr 0xFF"
  by (simp_all add: cpu_unknown_opcode_def CPU_init_def getitem_def py_index_def)

lemma cpu_vector_9000_eq:
  "cpu_vector_9000 = CPU_init\<lparr>memory := (memory CPU_init)[0xFFFC := 0x00, 0xFFFD := 0x90]\<rparr>"
  by (simp add: cpu_vector_9000_def write_word_def bytearray_setitem_def is_byte_def
      py_index_def CPU_init_def drop_bit_eq_div)

lemma small_cases: "(n::nat) < 8 \<Longrightarrow> n \<in> {0, 1, 2, 3, 4, 5, 6, 7}"
  by auto

lemma mask_7D: "bit (0x7D::int) n \<longleftrightarrow> n < 7 \<and> n \<noteq> 1"
proof (cases "n < 8")
  case True
  then show ?thesis using small_cases[OF True] by auto
next
  case False
  then show ?thesis using byte_high_bits[of "0x7D" n] by simp
qed

lemma mask_02: "bit (0x02::int) n \<longleftrightarrow> n = 1"
proof (cases "n < 8")
  case True
  then show ?thesis using small_cases[OF True] by auto
next
  case False
  then show ?thesis using byte_high_bits[of "0x02" n] by simp
qed

lemma mask_80: "bit (0x80::int) n \<longleftrightarrow> n = 7"
proof (cases "n < 8")
  case True
  then show ?thesis using small_cases[OF True] by auto
next
  case False
  then show ?thesis using byte_high_bits[of "0x80" n] by simp
qed

lemma update_flags_P_bit:
  "bit (registers (update_flags v s) P) n \<longleftrightarrow>
     (if n = 1 then v = 0 else if n = 7 then v AND 0x80 \<noteq> 0 else n < 7 \<and> bit (registers s P) n)"
  by (auto simp add: update_flags_def Let_def bit_or_iff bit_and_iff mask_7D mask_02 mask_80)

lemma update_flags_other:
  "update_flags v s = s\<lparr>registers := (registers s)(P := registers (update_flags v s) P)\<rparr>"
  by (simp add: update_flags_def Let_def)

lemma fetch_byte_in_range:
  "0 \<le> registers s PC \<Longrightarrow> registers s PC < int (length (memory s)) \<Longrightarrow>
   fetch_byte s = Returned (memory s ! nat (registers s PC))
     (s\<lparr>registers := (registers s)(PC := registers s PC + 1)\<rparr>)"
  by (simp add: fetch_byte_def getitem_nonneg)

lemma fetch_byte_past_end:
  "int (length (memory s)) \<le> registers s PC \<Longrightarrow> fetch_byte s = Raised IndexError s"
  by (simp add: fetch_byte_def getitem_def py_index_def)

lemma fetch_addr_in_range:
  assumes "0 \<le> registers s PC" and "registers s PC + 1 < int (length (memory s))"
    and "is_byte (memory s ! nat (registers s PC))"
  shows "fetch_addr s =
     Returned (memory s ! nat (registers s PC) + 256 * memory s ! nat (registers s PC + 1))
       (s\<lparr>registers := (registers s)(PC := registers s PC + 2)\<rparr>)"
  using assms by (simp add: fetch_addr_def fetch_byte_in_range word_of_bytes add.commute)

lemma opcodes_simps:
  "opcodes 0xA9 = Some LDA_immediate"
  "opcodes 0xAD = Some LDA_absolute"
  "opcodes 0x8D = Some STA_absolute"
  "opcodes 0x4C = Some JMP_absolute"
  "opcodes 0xEA = Some NOP"
  "opcodes 0x00 = Some BRK"
  by (simp_all add: opcodes_def)

lemma opcodes_None_iff:
  "opcodes op = None \<longleftrightarrow> op \<notin> {0xA9, 0xAD, 0x8D, 0x4C, 0xEA, 0x00}"
  by (simp add: opcodes_def)

lemma cpu_jmp_simps:
  "registers cpu_jmp PC = 0x9000"
  "jmp_at cpu_jmp 0x9000 0x8000"
  by (simp_all add: cpu_jmp_def CPU_init_def jmp_at_def is_byte_def)

lemma and_FF_byte: "is_byte (v AND 0xFF)"
  by (simp add: is_byte_def)

lemma state_of_then_do:
  assumes "Q (state_of m)" and "\<And>v s. m = Returned v s \<Longrightarrow> Q (state_of (f v s))"
  shows "Q (state_of (then_do m f))"
  using assms by (cases m) auto

lemma bytearray_setitem_bytes:
  assumes "bytearray_setitem xs i v = Inr ys" and "\<forall>x \<in> set xs. is_byte x"
  shows "\<forall>x \<in> set ys. is_byte x"
  using bytearray_setitem_Inr_D[OF assms(1)] assms(2) by auto

lemma cpu_inv_memory_update:
  assumes "cpu_inv s" and "bytearray_setitem (memory s) i v = Inr m"
  shows "cpu_inv (s\<lparr>memory := m\<rparr>)"
  using assms bytearray_setitem_Inr_D[OF assms(2)] bytearray_setitem_bytes[OF assms(2)]
  by (simp add: cpu_inv_def)

lemma cpu_inv_write_byte: "cpu_inv s \<Longrightarrow> cpu_inv (state_of (write_byte a v s))"
  by (cases "bytearray_setitem (memory s) a (v AND 0xFF)")
     (auto simp: write_byte_def intro: cpu_inv_memory_update)

lemma cpu_inv_write_word:
  assumes "cpu_inv s"
  shows "cpu_inv (state_of (write_word a v s))"
proof (cases "bytearray_setitem (memory s) a (v AND 0xFF)")
  case (Inl e)
  then show ?thesis using assms by (simp add: write_word_def)
next
  case (Inr m)
  let ?s1 = "s\<lparr>memory := m\<rparr>"
  have 1: "cpu_inv ?s1" by (rule cpu_inv_memory_update[OF assms Inr])
  show ?thesis
  proof (cases "bytearray_setitem m (a + 1) (drop_bit 8 v AND 0xFF)")
    case (Inl e)
    with Inr 1 show ?thesis by (simp add: write_word_def)
  next
    case inr2: (Inr m')
    from cpu_inv_memory_update[OF 1, of "a + 1" "drop_bit 8 v AND 0xFF" m'] inr2 Inr
    show ?thesis by (simp add: write_word_def)
  qed
qed

lemma write_byte_no_ValueError: "write_byte a v s \<noteq> Raised ValueError t"
  using and_FF_byte[of v]
  by (auto simp: write_byte_def bytearray_setitem_def split: option.splits)

lemma write_word_no_ValueError: "write_word a v s \<noteq> Raised ValueError t"
  using and_FF_byte[of v] and_FF_byte[of "drop_bit 8 v"]
  by (auto simp: write_word_def bytearray_setitem_def split: option.splits)



lemma cpu_inv_fetch_byte:
  assumes "cpu_inv s"
  shows "cpu_inv (state_of (fetch_byte s))"
proof (cases "getitem (memory s) (registers s PC)")
  case (Inl e)
  then show ?thesis using assms by (simp add: fetch_byte_def)
next
  case (Inr v)
  then show ?thesis using assms by (simp add: fetch_byte_def cpu_inv_def)
qed

lemma fetch_byte_is_byte:
  assumes "cpu_inv s" and "fetch_byte s = Returned v s'"
  shows "is_byte v" and "cpu_inv s'"
proof -
  from assms(2) have "getitem (memory s) (registers s PC) = Inr v"
    by (simp add: fetch_byte_Returned_iff)
  from getitem_Inr_D[OF this] assms(1) show "is_byte v"
    by (simp add: cpu_inv_def)
  from cpu_inv_fetch_byte[OF assms(1)] assms(2) show "cpu_inv s'" by simp
qed

lemma cpu_inv_update_flags [simp]: "cpu_inv (update_flags v s) = cpu_inv s"
  by (simp add: cpu_inv_def update_flags_def Let_def)

lemma cpu_inv_set_A: "cpu_inv s \<Longrightarrow> is_byte v \<Longrightarrow> cpu_inv (s\<lparr>registers := (registers s)(A := v)\<rparr>)"
  by (simp add: cpu_inv_def)

lemma cpu_inv_set_PC: "cpu_inv s \<Longrightarrow> cpu_inv (s\<lparr>registers := (registers s)(PC := v)\<rparr>)"
  by (simp add: cpu_inv_def)


lemma cpu_inv_fetch_addr:
  assumes "cpu_inv s"
  shows "cpu_inv (state_of (fetch_addr s))"
  unfolding fetch_addr_def
proof (rule state_of_then_do)
  show "cpu_inv (state_of (fetch_byte s))" by (rule cpu_inv_fetch_byte[OF assms])
next
  fix lo s1 assume "fetch_byte s = Returned lo s1"
  from fetch_byte_is_byte(2)[OF assms this] have 1: "cpu_inv s1" .
  show "cpu_inv (state_of (then_do (fetch_byte s1) (\<lambda>hi s. Returned (lo OR push_bit 8 hi) s)))"
  proof (rule state_of_then_do)
    show "cpu_inv (state_of (fetch_byte s1))" by (rule cpu_inv_fetch_byte[OF 1])
  next
    fix hi s2 assume "fetch_byte s1 = Returned hi s2"
    from fetch_byte_is_byte(2)[OF 1 this]
    show "cpu_inv (state_of (Returned (lo OR push_bit 8 hi) s2))" by simp
  qed
qed

lemma cpu_inv_fetch_addr_Returned:
  "cpu_inv s \<Longrightarrow> fetch_addr s = Returned a s' \<Longrightarrow> cpu_inv s'"
  using cpu_inv_fetch_addr[of s] by simp

lemma cpu_inv_LDA_immediate:
  assumes "cpu_inv s"
  shows "cpu_inv (state_of (LDA_immediate s))"
  unfolding LDA_immediate_def
proof (rule state_of_then_do)
  show "cpu_inv (state_of (fetch_byte s))" by (rule cpu_inv_fetch_byte[OF assms])
next
  fix v s1 assume "fetch_byte s = Returned v s1"
  from fetch_byte_is_byte[OF assms this]
  show "cpu_inv (state_of (Returned 2 (update_flags v (s1\<lparr>registers := (registers s1)(A := v)\<rparr>))))"
    by (simp add: cpu_inv_set_A)
qed

lemma cpu_inv_LDA_absolute:
  assumes "cpu_inv s"
  shows "cpu_inv (state_of (LDA_absolute s))"
  unfolding LDA_absolute_def
proof (rule state_of_then_do)
  show "cpu_inv (state_of (fetch_addr s))" by (rule cpu_inv_fetch_addr[OF assms])
next
  fix addr s1 assume "fetch_addr s = Returned addr s1"
  from cpu_inv_fetch_addr_Returned[OF assms this] have 1: "cpu_inv s1" .
  show "cpu_inv (state_of (then_do (read_byte addr s1)
     (\<lambda>v s. Returned 4 (update_flags v (s\<lparr>registers := (registers s)(A := v)\<rparr>)))))"
  proof (rule state_of_then_do)
    show "cpu_inv (state_of (read_byte addr s1))"
      using 1 by (cases "getitem (memory s1) addr") (simp_all add: read_byte_def)
  next
    fix v s2 assume "read_byte addr s1 = Returned v s2"
    then have g: "getitem (memory s1) addr = Inr v" and s2: "s2 = s1"
      by (simp_all add: read_byte_Returned_iff)
    from getitem_Inr_D[OF g] 1 have "is_byte v" by (simp add: cpu_inv_def)
    with 1 s2
    show "cpu_inv (state_of (Returned 4 (update_flags v (s2\<lparr>registers := (registers s2)(A := v)\<rparr>))))"
      by (simp add: cpu_inv_set_A)
  qed
qed

lemma cpu_inv_STA_absolute:
  assumes "cpu_inv s"
  shows "cpu_inv (state_of (STA_absolute s))"
  unfolding STA_absolute_def
proof (rule state_of_then_do)
  show "cpu_inv (state_of (fetch_addr s))" by (rule cpu_inv_fetch_addr[OF assms])
next
  fix addr s1 assume "fetch_addr s = Returned addr s1"
  from cpu_inv_fetch_addr_Returned[OF assms this] have 1: "cpu_inv s1" .
  show "cpu_inv (state_of (then_do (write_byte addr (registers s1 A) s1) (\<lambda>u s. Returned 4 s)))"
  proof (rule state_of_then_do)
    show "cpu_inv (state_of (write_byte addr (registers s1 A) s1))"
      by (rule cpu_inv_write_byte[OF 1])
  next
    fix u s2 assume "write_byte addr (registers s1 A) s1 = Returned u s2"
    with cpu_inv_write_byte[OF 1, of addr "registers s1 A"]
    show "cpu_inv (state_of (Returned 4 s2))" by simp
  qed
qed

lemma cpu_inv_JMP_absolute:
  assumes "cpu_inv s"
  shows "cpu_inv (state_of (JMP_absolute s))"
  unfolding JMP_absolute_def
proof (rule state_of_then_do)
  show "cpu_inv (state_of (fetch_addr s))" by (rule cpu_inv_fetch_addr[OF assms])
next
  fix addr s1 assume "fetch_addr s = Returned addr s1"
  from cpu_inv_fetch_addr_Returned[OF assms this]
  show "cpu_inv (state_of (Returned 3 (s1\<lparr>registers := (registers s1)(PC := addr)\<rparr>)))"
    by (simp add: cpu_inv_set_PC)
qed

lemma cpu_inv_handler:
  assumes "opcodes op = Some h" and "cpu_inv s"
  shows "cpu_inv (state_of (h s))"
proof -
  from opcodes_Some_D[OF assms(1)]
  consider "h = LDA_immediate" | "h = LDA_absolute" | "h = STA_absolute"
    | "h = JMP_absolute" | "h = NOP" | "h = BRK"
    by blast
  then show ?thesis
  proof cases
    case 1
    then show ?thesis by (simp add: cpu_inv_LDA_immediate[OF assms(2)])
  next
    case 2
    then show ?thesis by (simp add: cpu_inv_LDA_absolute[OF assms(2)])
  next
    case 3
    then show ?thesis by (simp add: cpu_inv_STA_absolute[OF assms(2)])
  next
    case 4
    then show ?thesis by (simp add: cpu_inv_JMP_absolute[OF assms(2)])
  next
    case 5
    then show ?thesis using assms(2) by (simp add: NOP_def)
  next
    case 6
    then show ?thesis using assms(2) by (simp add: BRK_def cpu_inv_def)
  qed
qed

lemma cpu_inv_execute:
  assumes "cpu_inv s"
  shows "cpu_inv (state_of (execute s))"
  unfolding execute_def
proof (rule state_of_then_do)
  show "cpu_inv (state_of (fetch_byte s))" by (rule cpu_inv_fetch_byte[OF assms])
next
  fix op s1 assume "fetch_byte s = Returned op s1"
  from fetch_byte_is_byte(2)[OF assms this] have 1: "cpu_inv s1" .
  show "cpu_inv (state_of (case opcodes op of
         Some handler \<Rightarrow>
           then_do (handler s1) (\<lambda>cycles s.
             Returned cycles (s\<lparr>clock_cycles := clock_cycles s + cycles\<rparr>))
       | None \<Rightarrow> Returned 0 s1))"
  proof (cases "opcodes op")
    case None
    with 1 show ?thesis by simp
  next
    case (Some h)
    have "cpu_inv (state_of (then_do (h s1) (\<lambda>cycles s.
             Returned cycles (s\<lparr>clock_cycles := clock_cycles s + cycles\<rparr>))))"
    proof (rule state_of_then_do)
      show "cpu_inv (state_of (h s1))" by (rule cpu_inv_handler[OF Some 1])
    next
      fix c s2 assume "h s1 = Returned c s2"
      with cpu_inv_handler[OF Some 1] have "cpu_inv s2" by simp
      then show "cpu_inv (state_of (Returned c (s2\<lparr>clock_cycles := clock_cycles s2 + c\<rparr>)))"
        by (simp add: cpu_inv_def)
    qed
    with Some show ?thesis by simp
  qed
qed

lemma cpu_inv_do_call: "cpu_inv s \<Longrightarrow> cpu_inv (do_call c s)"
  by (cases c) (simp_all add: cpu_inv_execute cpu_inv_write_byte cpu_inv_write_word)

lemma cpu_inv_CPU_init: "cpu_inv CPU_init"
  by (simp add: cpu_inv_def CPU_init_def is_byte_def)

lemma and_FF_mod: "(v::int) AND 0xFF = v mod 256"
proof -
  have "v AND mask 8 = v mod 2 ^ 8"
    by (simp only: take_bit_eq_mask[symmetric] take_bit_eq_mod)
  moreover have "mask 8 = (0xFF::int)"
    by (simp add: mask_eq_exp_minus_1)
  ultimately show ?thesis by simp
qed

lemma write_byte_in_range:
  assumes "0 \<le> a" and "a < int (length (memory s))"
  shows "write_byte a v s = Returned () (s\<lparr>memory := (memory s)[nat a := v mod 256]\<rparr>)"
  using assms and_FF_byte[of v]
  by (simp add: write_byte_def bytearray_setitem_nonneg and_FF_mod)

lemma write_word_in_range:
  assumes "0 \<le> a" and "a + 1 < int (length (memory s))"
  shows "write_word a v s =
    Returned () (s\<lparr>memory := (memory s)[nat a := v mod 256, nat (a + 1) := v div 256 mod 256]\<rparr>)"
  using assms and_FF_byte[of v] and_FF_byte[of "drop_bit 8 v"]
  by (simp add: write_word_def bytearray_setitem_nonneg and_FF_mod drop_bit_eq_div)

lemma run_calls_example:
  "run_calls calls_example CPU_init =
     CPU_init\<lparr>memory := (memory CPU_init)[0xFFFC := 0x45, 0xFFFD := 0x23, 0x8000 := 0xFF],
       registers := (registers CPU_init)(PC := 0x8001)\<rparr>"
proof -
  have l: "length (memory CPU_init) = 0x10000" by (simp add: CPU_init_def)
  have 1: "write_word 0xFFFC 0x12345 CPU_init =
      Returned () (CPU_init\<lparr>memory := (memory CPU_init)[0xFFFC := 0x45, 0xFFFD := 0x23]\<rparr>)"
    using write_word_in_range[of "0xFFFC" CPU_init "0x12345"] l by simp
  let ?s1 = "CPU_init\<lparr>memory := (memory CPU_init)[0xFFFC := 0x45, 0xFFFD := 0x23]\<rparr>"
  have 2: "write_byte 0x8000 (- 1) ?s1 =
      Returned () (?s1\<lparr>memory := (memory ?s1)[0x8000 := 0xFF]\<rparr>)"
    using write_byte_in_range[of "0x8000" ?s1 "- 1"] l by simp
  have pc: "registers CPU_init PC = 0x8000" by (simp add: CPU_init_def)
  have 3: "execute (CPU_init\<lparr>memory := (memory CPU_init)[0xFFFC := 0x45, 0xFFFD := 0x23, 0x8000 := 0xFF]\<rparr>)
     = Returned 0 (CPU_init\<lparr>memory := (memory CPU_init)[0xFFFC := 0x45, 0xFFFD := 0x23, 0x8000 := 0xFF],
       registers := (registers CPU_init)(PC := 0x8001)\<rparr>)"
    by (simp add: execute_def fetch_byte_def getitem_nonneg l opcodes_def pc)
  show ?thesis by (simp add: calls_example_def 1 2 3)
qed

lemma execute_fetched:
  assumes "0 \<le> registers s PC" and "registers s PC < int (length (memory s))"
  shows "execute s =
     (case opcodes (memory s ! nat (registers s PC)) of
        Some handler \<Rightarrow>
          then_do (handler (s\<lparr>registers := (registers s)(PC := registers s PC + 1)\<rparr>))
            (\<lambda>cycles s. Returned cycles (s\<lparr>clock_cycles := clock_cycles s + cycles\<rparr>))
      | None \<Rightarrow> Returned 0 (s\<lparr>registers := (registers s)(PC := registers s PC + 1)\<rparr>))"
  using assms by (simp add: execute_def fetch_byte_in_range)

lemma execute_past_end:
  "int (length (memory s)) \<le> registers s PC \<Longrightarrow> execute s = Raised IndexError s"
  by (simp add: execute_def fetch_byte_past_end)

lemma nth_is_byte:
  "\<forall>v \<in> set xs. is_byte v \<Longrightarrow> 0 \<le> i \<Longrightarrow> i < int (length xs) \<Longrightarrow> is_byte (xs ! nat i)"
  by simp

lemma address_bounds:
  "is_byte lo \<Longrightarrow> is_byte hi \<Longrightarrow> 0 \<le> lo + 256 * hi \<and> lo + 256 * hi \<le> 0xFFFF"
  by (simp add: is_byte_def)

lemma handler_returns:
  assumes h: "opcodes op = Some h"
    and len: "length (memory s) = 0x10000" and bytes: "\<forall>v \<in> set (memory s). is_byte v"
    and pc: "0 \<le> registers s PC" "registers s PC \<le> 0xFFFE"
  shows "is_returned (h s) \<and> 0 \<le> registers (state_of (h s)) PC \<and>
         registers (state_of (h s)) PC \<le> 0x10000"
proof -
  let ?q = "registers s PC"
  have lo: "is_byte (memory s ! nat ?q)" and hi: "is_byte (memory s ! nat (?q + 1))"
    using len bytes pc by (simp_all add: nth_is_byte)
  note ab = address_bounds[OF lo hi]
  have fa: "fetch_addr s =
     Returned (memory s ! nat ?q + 256 * memory s ! nat (?q + 1))
       (s\<lparr>registers := (registers s)(PC := ?q + 2)\<rparr>)"
    using fetch_addr_in_range[of s] len pc lo by simp
  from opcodes_Some_D[OF h]
  consider "h = LDA_immediate" | "h = LDA_absolute" | "h = STA_absolute"
    | "h = JMP_absolute" | "h = NOP" | "h = BRK"
    by blast
  then show ?thesis
  proof cases
    case 1
    then show ?thesis using len pc
      by (simp add: LDA_immediate_def fetch_byte_in_range update_flags_def Let_def)
  next
    case 2
    then show ?thesis using len pc ab
      by (simp add: LDA_absolute_def fa read_byte_def getitem_nonneg update_flags_def Let_def)
  next
    case 3
    then show ?thesis using len pc ab
      by (simp add: STA_absolute_def fa write_byte_in_range)
  next
    case 4
    then show ?thesis using ab by (simp add: JMP_absolute_def fa)
  next
    case 5
    then show ?thesis using pc by (simp add: NOP_def)
  next
    case 6
    then show ?thesis using pc by (simp add: BRK_def)
  qed
qed

lemma execute_returns:
  assumes len: "length (memory s) = 0x10000" and bytes: "\<forall>v \<in> set (memory s). is_byte v"
    and pc: "0 \<le> registers s PC" "registers s PC \<le> 0xFFFD"
  shows "is_returned (execute s) \<and> 0 \<le> registers (state_of (execute s)) PC \<and>
         registers (state_of (execute s)) PC \<le> 0x10000"
proof (cases "opcodes (memory s ! nat (registers s PC))")
  case None
  then show ?thesis using execute_fetched[of s] len pc by simp
next
  case (Some h)
  let ?s1 = "s\<lparr>registers := (registers s)(PC := registers s PC + 1)\<rparr>"
  have "is_returned (h ?s1) \<and> 0 \<le> registers (state_of (h ?s1)) PC \<and>
         registers (state_of (h ?s1)) PC \<le> 0x10000"
    using len bytes pc by (intro handler_returns[OF Some]) simp_all
  then obtain c s2 where r: "h ?s1 = Returned c s2"
    and b: "0 \<le> registers s2 PC" "registers s2 PC \<le> 0x10000"
    by (cases "h ?s1") auto
  show ?thesis using execute_fetched[of s] len pc Some r b by simp
qed

lemma bytes_list_update:
  assumes "\<forall>v \<in> set xs. is_byte v" and "is_byte x"
  shows "\<forall>v \<in> set (xs[i := x]). is_byte v"
  using assms set_update_subset_insert[of xs i x] by auto

lemma bytes_replicate: "\<forall>v \<in> set (replicate n 0). is_byte v"
  by (simp add: is_byte_def)

lemma cpu_at_top_bytes: "\<forall>v \<in> set (memory cpu_at_top). is_byte v"
proof -
  have "\<forall>v \<in> set ((replicate 0x10000 0)[0xFFFF := 0xEA]). is_byte v"
    by (rule bytes_list_update[OF bytes_replicate]) (simp add: is_byte_def)
  then show ?thesis by (simp add: cpu_at_top_def CPU_init_def)
qed

lemma cpu_at_top_simps:
  "length (memory cpu_at_top) = 0x10000"
  "registers cpu_at_top PC = 0xFFFF"
  "memory cpu_at_top ! 0xFFFF = 0xEA"
  by (simp_all add: cpu_at_top_def CPU_init_def)

lemma execute_cpu_at_top:
  "execute cpu_at_top =
     Returned 2 (cpu_at_top\<lparr>registers := (registers cpu_at_top)(PC := 0x10000), clock_cycles := 2\<rparr>)"
  using execute_fetched[of cpu_at_top]
  by (simp add: cpu_at_top_simps opcodes_simps NOP_def) (simp add: cpu_at_top_def CPU_init_def)

lemma bit_pair_cases:
  assumes "a = 0 \<or> a = 1" and "b = 0 \<or> b = 1"
  shows "push_bit 1 a OR b = 2 * a + (b::int)"
  using assms by auto

lemma color_index_eq:
  "color_index plane0 plane1 b =
     2 * (plane1 div 2 ^ nat b mod 2) + plane0 div 2 ^ nat b mod 2"
  unfolding color_index_def
  by (rule trans[OF bit_pair_cases])
     (auto simp: and_one_eq drop_bit_eq_div)

lemma color_index_range: "0 \<le> color_index plane0 plane1 b \<and> color_index plane0 plane1 b \<le> 3"
proof -
  have m: "0 \<le> k mod 2 \<and> k mod 2 \<le> 1" for k :: int
    by presburger
  from m[of "plane1 div 2 ^ nat b"] m[of "plane0 div 2 ^ nat b"]
  show ?thesis unfolding color_index_eq by linarith
qed

lemma palette_read_in_range:
  "0 \<le> i \<Longrightarrow> i < int (length (palette p)) \<Longrightarrow>
   palette_read i p = Returned (palette p ! nat i) (p\<lparr>accesses := accesses p @ [PaletteRead i]\<rparr>)"
  by (simp add: palette_read_def getitem_nonneg)


text \<open>
  A loop whose body returns and keeps an invariant returns and keeps it; the rendering
  loops are handled with it.
\<close>

lemma for_loop_invariant:
  assumes "I s"
    and "\<And>i s. i \<in> set is \<Longrightarrow> I s \<Longrightarrow> is_returned (body i s) \<and> I (state_of (body i s))"
  shows "is_returned (for_loop is body s) \<and> I (state_of (for_loop is body s))"
  using assms
proof (induction "is" arbitrary: s)
  case Nil
  then show ?case by simp
next
  case (Cons i "is")
  from Cons.prems(2)[of i s] Cons.prems(1)
  obtain s' where b: "body i s = Returned () s'" and s': "I s'"
    by (cases "body i s") auto
  from Cons.IH[OF s'] Cons.prems(2) b show ?case by simp
qed

lemma range_set: "i \<in> set (range n) \<longleftrightarrow> 0 \<le> i \<and> i < int n"
proof
  assume "i \<in> set (range n)"
  then show "0 \<le> i \<and> i < int n" by (auto simp: range_def)
next
  assume "0 \<le> i \<and> i < int n"
  then have "nat i \<in> {0..<n}" and "i = int (nat i)" by auto
  then show "i \<in> set (range n)" unfolding range_def set_map set_upt by (rule image_eqI[rotated])
qed

lemma renders_from_refl: "renders_from p p"
  by (simp add: renders_from_def)

lemma renders_from_trans:
  assumes "renders_from p q" and "renders_from q r"
  shows "renders_from p r"
proof -
  from assms obtain l1 l2 where "accesses q = accesses p @ l1" "\<forall>a \<in> set l1. access_ok a"
    "accesses r = accesses q @ l2" "\<forall>a \<in> set l2. access_ok a"
    by (auto simp: renders_from_def)
  then have "accesses r = accesses p @ (l1 @ l2) \<and> (\<forall>a \<in> set (l1 @ l2). access_ok a)"
    by auto
  then have "\<exists>log. accesses r = accesses p @ log \<and> (\<forall>a \<in> set log. access_ok a)"
    by (rule exI)
  moreover from assms have "vram r = vram p" and "palette r = palette p"
    by (simp_all add: renders_from_def)
  ultimately show ?thesis by (simp add: renders_from_def)
qed

lemma renders_from_log:
  "access_ok a \<Longrightarrow> renders_from p (p\<lparr>accesses := accesses p @ [a]\<rparr>)"
  by (simp add: renders_from_def)

lemma renders_from_canvas:
  "renders_from p q \<Longrightarrow> renders_from p (q\<lparr>canvas := c\<rparr>)"
  by (simp add: renders_from_def)

lemma wf_ppu_renders_from: "wf_ppu p \<Longrightarrow> renders_from p q \<Longrightarrow> wf_ppu q"
  by (simp add: wf_ppu_def renders_from_def)

lemma vram_read_in_range:
  assumes "wf_ppu p" and "0 \<le> i" and "i < 0x8000"
  shows "vram_read tag i p = Returned (vram p ! nat i) (p\<lparr>accesses := accesses p @ [tag i]\<rparr>)"
    and "is_byte (vram p ! nat i)"
  using assms by (simp_all add: vram_read_def getitem_nonneg wf_ppu_def)

lemma render_pixel_ok:
  assumes "wf_ppu p" and "0 \<le> tx" and "tx \<le> 7"
  shows "is_returned (render_pixel x y ty plane0 plane1 tx p) \<and>
         renders_from p (state_of (render_pixel x y ty plane0 plane1 tx p))"
proof -
  let ?c = "color_index plane0 plane1 (7 - tx)"
  note r = color_index_range[of plane0 plane1 "7 - tx"]
  show ?thesis
  proof (cases "?c = 0")
    case True
    then show ?thesis by (simp add: render_pixel_def Let_def renders_from_refl)
  next
    case False
    with r have pos: "0 < ?c" by simp
    have "palette_read ?c p =
        Returned (palette p ! nat ?c) (p\<lparr>accesses := accesses p @ [PaletteRead ?c]\<rparr>)"
      using r assms(1) by (intro palette_read_in_range) (simp_all add: wf_ppu_def)
    moreover have "renders_from p (p\<lparr>accesses := accesses p @ [PaletteRead ?c]\<rparr>)"
      using r pos by (intro renders_from_log) simp
    ultimately show ?thesis using pos
      by (simp add: render_pixel_def Let_def renders_from_canvas)
  qed
qed

lemma render_row_pixels_ok:
  assumes "wf_ppu p"
  shows "is_returned (for_loop (range 8) (render_pixel x y ty plane0 plane1) p) \<and>
         renders_from p (state_of (for_loop (range 8) (render_pixel x y ty plane0 plane1) p))"
proof (rule for_loop_invariant[where I = "renders_from p"])
  show "renders_from p p" by (rule renders_from_refl)
next
  fix tx q assume tx: "tx \<in> set (range 8)" and q: "renders_from p q"
  from wf_ppu_renders_from[OF assms q] have "wf_ppu q" .
  from render_pixel_ok[OF this, of tx x y ty plane0 plane1] tx
  have "is_returned (render_pixel x y ty plane0 plane1 tx q) \<and>
        renders_from q (state_of (render_pixel x y ty plane0 plane1 tx q))"
    by (simp add: range_set)
  with q show "is_returned (render_pixel x y ty plane0 plane1 tx q) \<and>
        renders_from p (state_of (render_pixel x y ty plane0 plane1 tx q))"
    by (blast intro: renders_from_trans)
qed

lemma render_tile_rows_ok:
  assumes "wf_ppu p" and "0 \<le> tile_addr" and "tile_addr + 2 * int (length tys) \<le> 4096"
  shows "is_returned (render_tile_rows x y tile_addr tys p) \<and>
         renders_from p (state_of (render_tile_rows x y tile_addr tys p))"
  using assms
proof (induction tys arbitrary: tile_addr p)
  case Nil
  then show ?case by (simp add: renders_from_refl)
next
  case (Cons ty tys)
  let ?p1 = "p\<lparr>accesses := accesses p @ [PatternRead tile_addr]\<rparr>"
  let ?p2 = "p\<lparr>accesses := accesses p @ [PatternRead tile_addr, PatternRead (tile_addr + 1)]\<rparr>"
  let ?plane0 = "vram p ! nat tile_addr"
  let ?plane1 = "vram p ! nat (tile_addr + 1)"
  from Cons.prems have b: "0 \<le> tile_addr" "tile_addr + 1 < 0x8000" "tile_addr + 1 \<le> 4095"
    by simp_all
  have r1: "vram_read PatternRead tile_addr p = Returned ?plane0 ?p1"
    using vram_read_in_range(1)[OF Cons.prems(1), of tile_addr PatternRead] b by simp
  have f1: "renders_from p ?p1" using b by (intro renders_from_log) simp
  then have w1: "wf_ppu ?p1" by (rule wf_ppu_renders_from[OF Cons.prems(1)])
  have r2: "vram_read PatternRead (tile_addr + 1) ?p1 = Returned ?plane1 ?p2"
    using vram_read_in_range(1)[OF w1, of "tile_addr + 1" PatternRead] b by simp
  have "renders_from ?p1 (?p1\<lparr>accesses := accesses ?p1 @ [PatternRead (tile_addr + 1)]\<rparr>)"
    using b by (intro renders_from_log) simp
  then have f2: "renders_from ?p1 ?p2" by simp
  from renders_from_trans[OF f1 f2] have f12: "renders_from p ?p2" .
  then have w2: "wf_ppu ?p2" by (rule wf_ppu_renders_from[OF Cons.prems(1)])
  from render_row_pixels_ok[OF w2, of x y ty ?plane0 ?plane1]
  obtain p3 where r3: "for_loop (range 8) (render_pixel x y ty ?plane0 ?plane1) ?p2 = Returned () p3"
    and f3: "renders_from ?p2 p3"
    by (cases "for_loop (range 8) (render_pixel x y ty ?plane0 ?plane1) ?p2") auto
  from renders_from_trans[OF f12 f3] have f123: "renders_from p p3" .
  then have w3: "wf_ppu p3" by (rule wf_ppu_renders_from[OF Cons.prems(1)])
  from Cons.IH[OF w3, of "tile_addr + 2"] Cons.prems
  have "is_returned (render_tile_rows x y (tile_addr + 2) tys p3) \<and>
        renders_from p3 (state_of (render_tile_rows x y (tile_addr + 2) tys p3))"
    by simp
  with f123 have "is_returned (render_tile_rows x y (tile_addr + 2) tys p3) \<and>
        renders_from p (state_of (render_tile_rows x y (tile_addr + 2) tys p3))"
    by (blast intro: renders_from_trans)
  then show ?case by (simp add: r1 r2 r3)
qed

lemma render_tile_ok:
  assumes "wf_ppu p" and "is_byte tile_idx"
  shows "is_returned (render_tile x y tile_idx p) \<and>
         renders_from p (state_of (render_tile x y tile_idx p))"
  unfolding render_tile_def
  using assms(2) by (intro render_tile_rows_ok[OF assms(1)]) (simp_all add: is_byte_def range_def)

lemma render_cell_ok:
  assumes "wf_ppu p" and "0 \<le> y" and "y < 28" and "0 \<le> x" and "x < 32"
  shows "is_returned (render_cell y x p) \<and> renders_from p (state_of (render_cell y x p))"
proof -
  let ?i = "y * 32 + x"
  let ?p1 = "p\<lparr>accesses := accesses p @ [TileMapRead ?i]\<rparr>"
  from assms have b: "0 \<le> ?i" "?i < 896" by simp_all
  have r1: "vram_read TileMapRead ?i p = Returned (vram p ! nat ?i) ?p1"
    using vram_read_in_range(1)[OF assms(1), of ?i TileMapRead] b by simp
  have t: "is_byte (vram p ! nat ?i)"
    using vram_read_in_range(2)[OF assms(1), of ?i] b by simp
  have f1: "renders_from p ?p1" using b by (intro renders_from_log) simp
  then have w1: "wf_ppu ?p1" by (rule wf_ppu_renders_from[OF assms(1)])
  from render_tile_ok[OF w1 t, of "x * 8" "y * 8"] f1
  have "is_returned (render_tile (x * 8) (y * 8) (vram p ! nat ?i) ?p1) \<and>
        renders_from p (state_of (render_tile (x * 8) (y * 8) (vram p ! nat ?i) ?p1))"
    by (blast intro: renders_from_trans)
  then show ?thesis by (simp add: render_cell_def r1)
qed

lemma render_frame_ok:
  assumes "wf_ppu p"
  shows "is_returned (render_frame p) \<and> renders_from p (state_of (render_frame p))"
  unfolding render_frame_def
proof (rule for_loop_invariant[where I = "renders_from p"])
  show "renders_from p (p\<lparr>canvas := []\<rparr>)"
    by (intro renders_from_canvas renders_from_refl)
next
  fix y q assume y: "y \<in> set (range 28)" and q: "renders_from p q"
  show "is_returned (for_loop (range 32) (render_cell y) q) \<and>
        renders_from p (state_of (for_loop (range 32) (render_cell y) q))"
  proof (rule for_loop_invariant[where I = "renders_from p"])
    show "renders_from p q" by (rule q)
  next
    fix x q' assume x: "x \<in> set (range 32)" and q': "renders_from p q'"
    from wf_ppu_renders_from[OF assms q'] have "wf_ppu q'" .
    from render_cell_ok[OF this, of y x] x y
    have "is_returned (render_cell y x q') \<and> renders_from q' (state_of (render_cell y x q'))"
      by (simp add: range_set)
    with q' show "is_returned (render_cell y x q') \<and> renders_from p (state_of (render_cell y x q'))"
      by (blast intro: renders_from_trans)
  qed
qed

lemma wf_ppu_PPU_init: "wf_ppu PPU_init"
  by (simp add: wf_ppu_def PPU_init_def is_byte_def)

lemma execute_NOP:
  assumes "0 \<le> registers s PC" and "registers s PC < int (length (memory s))"
    and "memory s ! nat (registers s PC) = 0xEA"
  shows "execute s =
     Returned 2 (s\<lparr>registers := (registers s)(PC := registers s PC + 1),
                    clock_cycles := clock_cycles s + 2\<rparr>)"
  using execute_fetched[OF assms(1,2)] assms(3) by (simp add: opcodes_simps NOP_def)

lemma execute_BRK:
  assumes "0 \<le> registers s PC" and "registers s PC < int (length (memory s))"
    and "memory s ! nat (registers s PC) = 0x00"
  shows "execute s =
     Returned 7 (s\<lparr>registers := (registers s)(PC := registers s PC + 1),
                    running := False,
                    clock_cycles := clock_cycles s + 7\<rparr>)"
  using execute_fetched[OF assms(1,2)] assms(3) by (simp add: opcodes_simps BRK_def)

text \<open>The frame loop, one round at a time.\<close>

lemma cpu_loop_done:
  "\<not> cycles < target_cycles \<or> \<not> running (cpu e) \<Longrightarrow> cpu_loop cycles e = Returned cycles e"
  by (subst cpu_loop.simps) auto

lemma cpu_loop_step:
  assumes "cycles < target_cycles" and "running (cpu e)"
    and "execute (cpu e) = Returned n c"
  shows "cpu_loop cycles e = cpu_loop (cycles + n) (e\<lparr>trace := trace e @ [Exec], cpu := c\<rparr>)"
  using assms by (subst cpu_loop.simps) (simp add: on_cpu_def)

lemma cpu_loop_nops:
  assumes "running (cpu e)" and "cycles + 2 * int n = target_cycles"
    and "0 \<le> registers (cpu e) PC"
    and "registers (cpu e) PC + int n \<le> int (length (memory (cpu e)))"
    and "\<forall>k. 0 \<le> k \<and> k < int n \<longrightarrow> memory (cpu e) ! nat (registers (cpu e) PC + k) = 0xEA"
  shows "cpu_loop cycles e =
     Returned target_cycles
       (e\<lparr>cpu := (cpu e)\<lparr>registers := (registers (cpu e))(PC := registers (cpu e) PC + int n),
                           clock_cycles := clock_cycles (cpu e) + 2 * int n\<rparr>,
          trace := trace e @ replicate n Exec\<rparr>)"
  using assms
proof (induction n arbitrary: cycles e)
  case 0
  then show ?case by (simp add: cpu_loop_done)
next
  case (Suc n)
  let ?pc = "registers (cpu e) PC"
  let ?c = "(cpu e)\<lparr>registers := (registers (cpu e))(PC := ?pc + 1),
                    clock_cycles := clock_cycles (cpu e) + 2\<rparr>"
  let ?e1 = "e\<lparr>trace := trace e @ [Exec], cpu := ?c\<rparr>"
  from Suc.prems have lt: "cycles < target_cycles" by simp
  from Suc.prems(5) have "memory (cpu e) ! nat (?pc + 0) = 0xEA" by (intro Suc.prems(5)[rule_format]) simp
  then have ex: "execute (cpu e) = Returned 2 ?c"
    using Suc.prems by (intro execute_NOP) simp_all
  have step: "cpu_loop cycles e = cpu_loop (cycles + 2) ?e1"
    by (rule cpu_loop_step[OF lt Suc.prems(1) ex])
  have nops: "\<forall>k. 0 \<le> k \<and> k < int n \<longrightarrow> memory (cpu ?e1) ! nat (registers (cpu ?e1) PC + k) = 0xEA"
  proof (intro allI impI)
    fix k :: int assume "0 \<le> k \<and> k < int n"
    then have "memory (cpu e) ! nat (?pc + (k + 1)) = 0xEA"
      by (intro Suc.prems(5)[rule_format]) simp
    then show "memory (cpu ?e1) ! nat (registers (cpu ?e1) PC + k) = 0xEA"
      by (simp add: ac_simps)
  qed
  let ?e2 = "?e1\<lparr>cpu := (cpu ?e1)\<lparr>registers := (registers (cpu ?e1))(PC := registers (cpu ?e1) PC + int n),
                           clock_cycles := clock_cycles (cpu ?e1) + 2 * int n\<rparr>,
          trace := trace ?e1 @ replicate n Exec\<rparr>"
  have ih: "cpu_loop (cycles + 2) ?e1 = Returned target_cycles ?e2"
    using Suc.prems nops by (intro Suc.IH) simp_all
  have e2: "?e2 =
      e\<lparr>cpu := (cpu e)\<lparr>registers := (registers (cpu e))(PC := ?pc + int (Suc n)),
                           clock_cycles := clock_cycles (cpu e) + 2 * int (Suc n)\<rparr>,
          trace := trace e @ replicate (Suc n) Exec\<rparr>"
    by (simp add: add.assoc replicate_app_Cons_same)
  show ?case unfolding step ih e2 ..
qed

lemma wf_ppu_render_frame: "wf_ppu p \<Longrightarrow> wf_ppu (state_of (render_frame p))"
  using render_frame_ok wf_ppu_renders_from by blast

lemma render_and_schedule:
  assumes "wf_ppu (ppu e)"
  shows "then_do (on_ppu render_frame (e\<lparr>trace := trace e @ [Render]\<rparr>))
           (\<lambda>u e. Returned () (e\<lparr>trace := trace e @ [Schedule]\<rparr>)) =
         Returned () (e\<lparr>ppu := state_of (render_frame (ppu e)),
                         trace := trace e @ [Render, Schedule]\<rparr>)"
proof -
  from render_frame_ok[OF assms] obtain p' where "render_frame (ppu e) = Returned () p'"
    by (cases "render_frame (ppu e)") auto
  then show ?thesis by (simp add: on_ppu_def)
qed

lemma emu_nops_simps:
  "emu_running emu_nops" "running (cpu emu_nops)" "wf_ppu (ppu emu_nops)"
  "registers (cpu emu_nops) PC = 0x8000" "length (memory (cpu emu_nops)) = 0x10000"
  "trace emu_nops = []" "clock_cycles (cpu emu_nops) = 0"
  by (simp_all add: emu_nops_def CPU_init_def wf_ppu_PPU_init)

lemma emu_nops_page:
  "0 \<le> k \<and> k < 0x8000 \<Longrightarrow> memory (cpu emu_nops) ! nat (0x8000 + k) = 0xEA"
  by (simp add: emu_nops_def nth_append nat_add_distrib nat_less_iff)

text \<open>\<open>setup_test_environment\<close> returns and leaves a well-formed emulator.\<close>

lemma then_do_ok:
  assumes "is_returned m \<and> I (state_of m)"
    and "\<And>v s. I s \<Longrightarrow> is_returned (f v s) \<and> J (state_of (f v s))"
  shows "is_returned (then_do m f) \<and> J (state_of (then_do m f))"
  using assms by (cases m) auto

lemma vram_store_ok:
  assumes "wf_emulator e" and "0 \<le> i" and "i < 0x8000" and "is_byte v"
  shows "vram_store i v e = Returned () (e\<lparr>ppu := (ppu e)\<lparr>vram := (vram (ppu e))[nat i := v]\<rparr>\<rparr>)"
    and "wf_emulator (e\<lparr>ppu := (ppu e)\<lparr>vram := (vram (ppu e))[nat i := v]\<rparr>\<rparr>)"
proof -
  from assms(1) have l: "length (vram (ppu e)) = 0x8000"
    and b: "\<forall>x \<in> set (vram (ppu e)). is_byte x"
    by (simp_all add: wf_emulator_def wf_ppu_def)
  from assms l show "vram_store i v e =
      Returned () (e\<lparr>ppu := (ppu e)\<lparr>vram := (vram (ppu e))[nat i := v]\<rparr>\<rparr>)"
    by (simp add: vram_store_def bytearray_setitem_nonneg)
  from bytes_list_update[OF b assms(4), of "nat i"] assms(1)
  show "wf_emulator (e\<lparr>ppu := (ppu e)\<lparr>vram := (vram (ppu e))[nat i := v]\<rparr>\<rparr>)"
    by (simp add: wf_emulator_def wf_ppu_def)
qed

lemma memory_store_ok:
  assumes "wf_emulator e" and "0 \<le> i" and "i < 0x10000" and "is_byte v"
  shows "memory_store i v e = Returned () (e\<lparr>cpu := (cpu e)\<lparr>memory := (memory (cpu e))[nat i := v]\<rparr>\<rparr>)"
    and "wf_emulator (e\<lparr>cpu := (cpu e)\<lparr>memory := (memory (cpu e))[nat i := v]\<rparr>\<rparr>)"
proof -
  from assms(1) have l: "length (memory (cpu e)) = 0x10000"
    and b: "\<forall>x \<in> set (memory (cpu e)). is_byte x"
    by (simp_all add: wf_emulator_def)
  from assms l show "memory_store i v e =
      Returned () (e\<lparr>cpu := (cpu e)\<lparr>memory := (memory (cpu e))[nat i := v]\<rparr>\<rparr>)"
    by (simp add: memory_store_def bytearray_setitem_nonneg)
  from bytes_list_update[OF b assms(4), of "nat i"] assms(1)
  show "wf_emulator (e\<lparr>cpu := (cpu e)\<lparr>memory := (memory (cpu e))[nat i := v]\<rparr>\<rparr>)"
    by (simp add: wf_emulator_def)
qed

lemma setup_keeps_vram_store:
  assumes "setup_keeps e0 e" and "0 \<le> i" and "i < 0x8000" and "is_byte v"
  shows "is_returned (vram_store i v e) \<and> setup_keeps e0 (state_of (vram_store i v e))"
  using assms vram_store_ok[of e i v] by (simp add: setup_keeps_def)

lemma setup_keeps_memory_store:
  assumes "setup_keeps e0 e" and "0 \<le> i" and "i < 0x10000" and "is_byte v"
  shows "is_returned (memory_store i v e) \<and> setup_keeps e0 (state_of (memory_store i v e))"
  using assms memory_store_ok[of e i v] by (simp add: setup_keeps_def)

lemma setup_patterns_ok:
  assumes "setup_keeps e0 e"
  shows "is_returned (for_loop (range 256)
          (\<lambda>i e. then_do (vram_store (i * 16) 0xAA e) (\<lambda>u e. vram_store (i * 16 + 1) 0x55 e)) e) \<and>
         setup_keeps e0 (state_of (for_loop (range 256)
          (\<lambda>i e. then_do (vram_store (i * 16) 0xAA e) (\<lambda>u e. vram_store (i * 16 + 1) 0x55 e)) e))"
proof (rule for_loop_invariant[where I = "setup_keeps e0"])
  show "setup_keeps e0 e" by (rule assms)
next
  fix i e' assume i: "i \<in> set (range 256)" and k: "setup_keeps e0 e'"
  show "is_returned (then_do (vram_store (i * 16) 0xAA e') (\<lambda>u e. vram_store (i * 16 + 1) 0x55 e)) \<and>
        setup_keeps e0 (state_of (then_do (vram_store (i * 16) 0xAA e') (\<lambda>u e. vram_store (i * 16 + 1) 0x55 e)))"
  proof (rule then_do_ok[where I = "setup_keeps e0"])
    show "is_returned (vram_store (i * 16) 0xAA e') \<and>
          setup_keeps e0 (state_of (vram_store (i * 16) 0xAA e'))"
      using i by (intro setup_keeps_vram_store[OF k]) (simp_all add: range_set is_byte_def)
  next
    fix u :: unit and s assume "setup_keeps e0 s"
    then show "is_returned (vram_store (i * 16 + 1) 0x55 s) \<and>
          setup_keeps e0 (state_of (vram_store (i * 16 + 1) 0x55 s))"
      using i by (intro setup_keeps_vram_store) (simp_all add: range_set is_byte_def)
  qed
qed

lemma setup_tile_map_ok:
  assumes "setup_keeps e0 e"
  shows "is_returned (for_loop (range 28) (\<lambda>y. for_loop (range 32)
          (\<lambda>x. vram_store (0x1000 + y * 32 + x) ((x + y) mod 256))) e) \<and>
         setup_keeps e0 (state_of (for_loop (range 28) (\<lambda>y. for_loop (range 32)
          (\<lambda>x. vram_store (0x1000 + y * 32 + x) ((x + y) mod 256))) e))"
proof (rule for_loop_invariant[where I = "setup_keeps e0"])
  show "setup_keeps e0 e" by (rule assms)
next
  fix y e' assume y: "y \<in> set (range 28)" and k: "setup_keeps e0 e'"
  show "is_returned (for_loop (range 32) (\<lambda>x. vram_store (0x1000 + y * 32 + x) ((x + y) mod 256)) e') \<and>
        setup_keeps e0 (state_of (for_loop (range 32)
          (\<lambda>x. vram_store (0x1000 + y * 32 + x) ((x + y) mod 256)) e'))"
  proof (rule for_loop_invariant[where I = "setup_keeps e0"])
    show "setup_keeps e0 e'" by (rule k)
  next
    fix x e'' assume x: "x \<in> set (range 32)" and k': "setup_keeps e0 e''"
    show "is_returned (vram_store (0x1000 + y * 32 + x) ((x + y) mod 256) e'') \<and>
          setup_keeps e0 (state_of (vram_store (0x1000 + y * 32 + x) ((x + y) mod 256) e''))"
      using x y by (intro setup_keeps_vram_store[OF k']) (simp_all add: range_set is_byte_def)
  qed
qed

lemma program_bytes: "\<forall>v \<in> set program. is_byte v"
  by (simp add: program_def is_byte_def)

lemma program_length: "length program = 18"
  by (simp add: program_def)

lemma setup_program_ok:
  assumes "setup_keeps e0 e"
  shows "is_returned (for_loop (enumerate 0 program)
           (\<lambda>(i, byte). memory_store (0x8000 + int i) byte) e) \<and>
         setup_keeps e0 (state_of (for_loop (enumerate 0 program)
           (\<lambda>(i, byte). memory_store (0x8000 + int i) byte) e))"
proof (rule for_loop_invariant[where I = "setup_keeps e0"])
  show "setup_keeps e0 e" by (rule assms)
next
  fix ib e' assume ib: "ib \<in> set (enumerate 0 program)" and k: "setup_keeps e0 e'"
  obtain i byte where p: "ib = (i, byte)" by (cases ib)
  with ib have "i < length program" and "byte \<in> set program"
    by (auto simp: in_set_enumerate_eq)
  then have "i < 18" and "is_byte byte"
    using program_bytes by (simp_all add: program_length)
  then have "is_returned (memory_store (0x8000 + int i) byte e') \<and>
        setup_keeps e0 (state_of (memory_store (0x8000 + int i) byte e'))"
    by (intro setup_keeps_memory_store[OF k]) simp_all
  with p show "is_returned ((case ib of (i, byte) \<Rightarrow> memory_store (0x8000 + int i) byte) e') \<and>
        setup_keeps e0 (state_of ((case ib of (i, byte) \<Rightarrow> memory_store (0x8000 + int i) byte) e'))"
    by simp
qed

lemma setup_vector_ok:
  assumes "setup_keeps e0 e"
  shows "is_returned (on_cpu (write_word 0xFFFC 0x8000) e) \<and>
         setup_keeps e0 (state_of (on_cpu (write_word 0xFFFC 0x8000) e))"
proof -
  from assms have l: "length (memory (cpu e)) = 0x10000"
    and b: "\<forall>x \<in> set (memory (cpu e)). is_byte x"
    by (simp_all add: setup_keeps_def wf_emulator_def)
  have w: "write_word 0xFFFC 0x8000 (cpu e) =
      Returned () ((cpu e)\<lparr>memory := (memory (cpu e))[0xFFFC := 0x00, 0xFFFD := 0x80]\<rparr>)"
    using write_word_in_range[of "0xFFFC" "cpu e" "0x8000"] l by simp
  have "\<forall>x \<in> set ((memory (cpu e))[0xFFFC := 0x00, 0xFFFD := 0x80]). is_byte x"
    by (intro bytes_list_update b) (simp_all add: is_byte_def)
  with assms show ?thesis
    by (simp add: on_cpu_def w setup_keeps_def wf_emulator_def)
qed

lemma setup_test_environment_ok:
  assumes "wf_emulator e"
  shows "is_returned (setup_test_environment e) \<and>
         setup_keeps e (state_of (setup_test_environment e))"
  unfolding setup_test_environment_def
proof (rule then_do_ok[where I = "setup_keeps e"])
  have "setup_keeps e e" using assms by (simp add: setup_keeps_def)
  then show "is_returned (for_loop (range 256)
          (\<lambda>i e. then_do (vram_store (i * 16) 0xAA e) (\<lambda>u e. vram_store (i * 16 + 1) 0x55 e)) e) \<and>
         setup_keeps e (state_of (for_loop (range 256)
          (\<lambda>i e. then_do (vram_store (i * 16) 0xAA e) (\<lambda>u e. vram_store (i * 16 + 1) 0x55 e)) e))"
    by (rule setup_patterns_ok)
next
  fix u :: unit and e1 assume k1: "setup_keeps e e1"
  let ?e1 = "e1\<lparr>ppu := (ppu e1)\<lparr>palette := [(0, 0, 0), (255, 0, 0), (0, 255, 0), (0, 0, 255)]\<rparr>\<rparr>"
  from k1 have k1': "setup_keeps e ?e1"
    by (simp add: setup_keeps_def wf_emulator_def wf_ppu_def)
  show "is_returned (then_do (for_loop (range 28) (\<lambda>y. for_loop (range 32)
          (\<lambda>x. vram_store (0x1000 + y * 32 + x) ((x + y) mod 256))) ?e1)
       (\<lambda>u e. then_do
          (for_loop (enumerate 0 program) (\<lambda>(i, byte). memory_store (0x8000 + int i) byte) e)
          (\<lambda>u e. on_cpu (write_word 0xFFFC 0x8000) e))) \<and>
     setup_keeps e (state_of (then_do (for_loop (range 28) (\<lambda>y. for_loop (range 32)
          (\<lambda>x. vram_store (0x1000 + y * 32 + x) ((x + y) mod 256))) ?e1)
       (\<lambda>u e. then_do
          (for_loop (enumerate 0 program) (\<lambda>(i, byte). memory_store (0x8000 + int i) byte) e)
          (\<lambda>u e. on_cpu (write_word 0xFFFC 0x8000) e))))"
  proof (rule then_do_ok[where I = "setup_keeps e"])
    show "is_returned (for_loop (range 28) (\<lambda>y. for_loop (range 32)
          (\<lambda>x. vram_store (0x1000 + y * 32 + x) ((x + y) mod 256))) ?e1) \<and>
        setup_keeps e (state_of (for_loop (range 28) (\<lambda>y. for_loop (range 32)
          (\<lambda>x. vram_store (0x1000 + y * 32 + x) ((x + y) mod 256))) ?e1))"
      by (rule setup_tile_map_ok[OF k1'])
  next
    fix u :: unit and e2 assume k2: "setup_keeps e e2"
    show "is_returned (then_do
          (for_loop (enumerate 0 program) (\<lambda>(i, byte). memory_store (0x8000 + int i) byte) e2)
          (\<lambda>u e. on_cpu (write_word 0xFFFC 0x8000) e)) \<and>
        setup_keeps e (state_of (then_do
          (for_loop (enumerate 0 program) (\<lambda>(i, byte). memory_store (0x8000 + int i) byte) e2)
          (\<lambda>u e. on_cpu (write_word 0xFFFC 0x8000) e)))"
    proof (rule then_do_ok[where I = "setup_keeps e"])
      show "is_returned (for_loop (enumerate 0 program)
             (\<lambda>(i, byte). memory_store (0x8000 + int i) byte) e2) \<and>
           setup_keeps e (state_of (for_loop (enumerate 0 program)
             (\<lambda>(i, byte). memory_store (0x8000 + int i) byte) e2))"
        by (rule setup_program_ok[OF k2])
    next
      fix u :: unit and e3 assume "setup_keeps e e3"
      then show "is_returned (on_cpu (write_word 0xFFFC 0x8000) e3) \<and>
          setup_keeps e (state_of (on_cpu (write_word 0xFFFC 0x8000) e3))"
        by (rule setup_vector_ok)
    qed
  qed
qed


lemma halted_frame:
  assumes "emu_running e" and "\<not> running (cpu e)" and "wf_ppu (ppu e)"
  shows "run_frame e =
     Returned () (e\<lparr>ppu := state_of (render_frame (ppu e)),
                     trace := trace e @ [Render, Schedule]\<rparr>)"
  using assms by (simp add: run_frame_def cpu_loop_done render_and_schedule)

lemma brk_frame:
  assumes "emu_running e" and "running (cpu e)" and "wf_ppu (ppu e)"
    and "0 \<le> registers (cpu e) PC" and "registers (cpu e) PC < int (length (memory (cpu e)))"
    and "memory (cpu e) ! nat (registers (cpu e) PC) = 0x00"
  shows "run_frame e =
     Returned ()
       (e\<lparr>cpu := (cpu e)\<lparr>registers := (registers (cpu e))(PC := registers (cpu e) PC + 1),
                           running := False,
                           clock_cycles := clock_cycles (cpu e) + 7\<rparr>,
          ppu := state_of (render_frame (ppu e)),
          trace := trace e @ [Exec, Render, Schedule]\<rparr>)"
proof -
  let ?c = "(cpu e)\<lparr>registers := (registers (cpu e))(PC := registers (cpu e) PC + 1),
                           running := False,
                           clock_cycles := clock_cycles (cpu e) + 7\<rparr>"
  let ?e1 = "e\<lparr>trace := trace e @ [Exec], cpu := ?c\<rparr>"
  have "cpu_loop 0 e = cpu_loop (0 + 7) ?e1"
    using assms by (intro cpu_loop_step execute_BRK) (simp_all add: target_cycles_def)
  also have "\<dots> = Returned (0 + 7) ?e1"
    by (rule cpu_loop_done) simp
  finally have 1: "cpu_loop 0 e = Returned 7 ?e1" by simp
  have 2: "then_do (on_ppu render_frame (?e1\<lparr>trace := trace ?e1 @ [Render]\<rparr>))
           (\<lambda>u e. Returned () (e\<lparr>trace := trace e @ [Schedule]\<rparr>)) =
         Returned () (?e1\<lparr>ppu := state_of (render_frame (ppu ?e1)),
                         trace := trace ?e1 @ [Render, Schedule]\<rparr>)"
    using assms(3) by (intro render_and_schedule) simp
  show ?thesis
    using assms(1) 2 by (simp add: run_frame_def 1)
qed

lemma cpu_loop_trace: "\<exists>t. trace (state_of (cpu_loop cycles e)) = trace e @ t"
proof (induction cycles e rule: cpu_loop.induct)
  case (1 cycles e)
  show ?case
  proof (cases "cycles < target_cycles \<and> running (cpu e)")
    case False
    then show ?thesis by (simp add: cpu_loop_done)
  next
    case True
    show ?thesis
    proof (cases "execute (cpu e)")
      case (Raised err c)
      with True show ?thesis by (subst cpu_loop.simps) (simp add: on_cpu_def)
    next
      case (Returned n c)
      then have o: "on_cpu execute (e\<lparr>trace := trace e @ [Exec]\<rparr>) =
          Returned n (e\<lparr>trace := trace e @ [Exec], cpu := c\<rparr>)"
        by (simp add: on_cpu_def)
      from "1.IH"[OF True o] obtain t where
        "trace (state_of (cpu_loop (cycles + n) (e\<lparr>trace := trace e @ [Exec], cpu := c\<rparr>))) =
           trace e @ [Exec] @ t"
        by auto
      with True o show ?thesis by (subst cpu_loop.simps) simp
    qed
  qed
qed

lemma cpu_loop_first_call:
  assumes "cycles < target_cycles" and "running (cpu e)"
  shows "\<exists>t. trace (state_of (cpu_loop cycles e)) = trace e @ Exec # t"
proof (cases "execute (cpu e)")
  case (Raised err c)
  with assms show ?thesis by (subst cpu_loop.simps) (simp add: on_cpu_def)
next
  case (Returned n c)
  from cpu_loop_trace[of "cycles + n" "e\<lparr>trace := trace e @ [Exec], cpu := c\<rparr>"]
  obtain t where
    "trace (state_of (cpu_loop (cycles + n) (e\<lparr>trace := trace e @ [Exec], cpu := c\<rparr>))) =
       trace e @ Exec # t"
    by auto
  with cpu_loop_step[OF assms Returned] show ?thesis by simp
qed

lemma render_tail_trace:
  "\<exists>t. trace (state_of (then_do (on_ppu render_frame (e\<lparr>trace := trace e @ [Render]\<rparr>))
           (\<lambda>u e. Returned () (e\<lparr>trace := trace e @ [Schedule]\<rparr>)))) = trace e @ t"
  by (cases "render_frame (ppu e)") (simp_all add: on_ppu_def)

lemma run_frame_first_call:
  assumes "emu_running e" and "running (cpu e)"
  shows "\<exists>t. trace (state_of (run_frame e)) = trace e @ Exec # t"
proof -
  from cpu_loop_first_call[OF _ assms(2), of 0] obtain t
    where t: "trace (state_of (cpu_loop 0 e)) = trace e @ Exec # t"
    by (auto simp: target_cycles_def)
  show ?thesis
  proof (cases "cpu_loop 0 e")
    case (Raised err e1)
    with t assms(1) show ?thesis by (simp add: run_frame_def)
  next
    case (Returned n e1)
    from render_tail_trace[of e1] obtain t' where
      "trace (state_of (then_do (on_ppu render_frame (e1\<lparr>trace := trace e1 @ [Render]\<rparr>))
           (\<lambda>u e. Returned () (e\<lparr>trace := trace e @ [Schedule]\<rparr>)))) = trace e1 @ t'"
      by auto
    with Returned t assms(1) show ?thesis by (simp add: run_frame_def)
  qed
qed

lemma wf_emulator_fresh:
  "wf_emulator \<lparr> cpu = CPU_init, ppu = PPU_init, emu_running = False, trace = [] \<rparr>"
  using cpu_inv_CPU_init wf_ppu_PPU_init by (simp add: wf_emulator_def cpu_inv_def)

lemma SNESEmulator_init_ok:
  "is_returned SNESEmulator_init"
  "wf_emulator (state_of SNESEmulator_init)"
  "\<not> emu_running (state_of SNESEmulator_init)"
  "trace (state_of SNESEmulator_init) = []"
  using setup_test_environment_ok[OF wf_emulator_fresh]
  by (simp_all add: SNESEmulator_init_def setup_keeps_def)

lemma emu_closed_simps:
  "cpu emu_closed = CPU_init" "wf_ppu (ppu emu_closed)"
  "\<not> emu_running emu_closed" "trace emu_closed = []"
  using SNESEmulator_init_ok
  by (simp_all add: emu_closed_def close_rom_def stop_def Let_def wf_emulator_def wf_ppu_def)

lemma CPU_init_simps:
  "registers CPU_init PC = 0x8000" "length (memory CPU_init) = 0x10000"
  "memory CPU_init ! 0x8000 = 0" "memory CPU_init ! 0x8001 = 0"
  "running CPU_init" "clock_cycles CPU_init = 0"
  by (simp_all add: CPU_init_def)

lemma emu_halted_eq:
  "start emu_closed =
     Returned ()
       (emu_closed\<lparr>emu_running := True,
          cpu := CPU_init\<lparr>registers := (registers CPU_init)(PC := 0x8001),
                           running := False, clock_cycles := 7\<rparr>,
          ppu := state_of (render_frame (ppu emu_closed)),
          trace := [Exec, Render, Schedule]\<rparr>)"
proof -
  let ?e = "emu_closed\<lparr>emu_running := True, cpu := (cpu emu_closed)\<lparr>running := True\<rparr>\<rparr>"
  have "run_frame ?e =
     Returned ()
       (?e\<lparr>cpu := (cpu ?e)\<lparr>registers := (registers (cpu ?e))(PC := registers (cpu ?e) PC + 1),
                           running := False,
                           clock_cycles := clock_cycles (cpu ?e) + 7\<rparr>,
          ppu := state_of (render_frame (ppu ?e)),
          trace := trace ?e @ [Exec, Render, Schedule]\<rparr>)"
    by (rule brk_frame) (simp_all add: emu_closed_simps CPU_init_simps)
  then show ?thesis
    by (simp add: start_def emu_closed_simps CPU_init_simps)
qed

lemma emu_halted_simps:
  "cpu emu_halted = CPU_init\<lparr>registers := (registers CPU_init)(PC := 0x8001),
                           running := False, clock_cycles := 7\<rparr>"
  "wf_ppu (ppu emu_halted)" "emu_running emu_halted"
  "trace emu_halted = [Exec, Render, Schedule]"
  by (simp_all add: emu_halted_def emu_halted_eq wf_ppu_render_frame emu_closed_simps)

lemma emu_halted_tick_eq:
  "run_frame emu_halted =
     Returned () (emu_halted\<lparr>ppu := state_of (render_frame (ppu emu_halted)),
                     trace := [Exec, Render, Schedule, Render, Schedule]\<rparr>)"
  using halted_frame[of emu_halted] by (simp add: emu_halted_simps)

lemma emu_halted_tick_simps:
  "cpu emu_halted_tick = cpu emu_halted"
  "wf_ppu (ppu emu_halted_tick)" "emu_running emu_halted_tick"
  "trace emu_halted_tick = [Exec, Render, Schedule, Render, Schedule]"
  by (simp_all add: emu_halted_tick_def emu_halted_tick_eq wf_ppu_render_frame emu_halted_simps(2,3))

lemma emu_restarted_eq:
  "start (stop emu_halted_tick) =
     Returned ()
       (emu_halted_tick\<lparr>emu_running := True,
          cpu := CPU_init\<lparr>registers := (registers CPU_init)(PC := 0x8002),
                           running := False, clock_cycles := 14\<rparr>,
          ppu := state_of (render_frame (ppu emu_halted_tick)),
          trace := [Exec, Render, Schedule, Render, Schedule, Exec, Render, Schedule]\<rparr>)"
proof -
  let ?e = "emu_halted_tick\<lparr>emu_running := True, cpu := (cpu emu_halted_tick)\<lparr>running := True\<rparr>\<rparr>"
  have "run_frame ?e =
     Returned ()
       (?e\<lparr>cpu := (cpu ?e)\<lparr>registers := (registers (cpu ?e))(PC := registers (cpu ?e) PC + 1),
                           running := False,
                           clock_cycles := clock_cycles (cpu ?e) + 7\<rparr>,
          ppu := state_of (render_frame (ppu ?e)),
          trace := trace ?e @ [Exec, Render, Schedule]\<rparr>)"
    by (rule brk_frame) (simp_all add: emu_halted_tick_simps emu_halted_simps CPU_init_simps)
  then show ?thesis
    by (simp add: start_def stop_def emu_halted_tick_simps emu_halted_simps CPU_init_simps)
qed

lemma reset_emulator_ok:
  assumes "wf_ppu (ppu e)"
  shows "is_returned (reset_emulator e) \<and>
         running (cpu (state_of (reset_emulator e))) \<and>
         \<not> emu_running (state_of (reset_emulator e)) \<and>
         registers (cpu (state_of (reset_emulator e))) = registers CPU_init \<and>
         trace (state_of (reset_emulator e)) = trace e"
proof -
  let ?e0 = "(stop e)\<lparr>cpu := CPU_init\<rparr>"
  have "wf_emulator ?e0"
    using assms cpu_inv_CPU_init by (simp add: wf_emulator_def cpu_inv_def stop_def)
  from setup_test_environment_ok[OF this] show ?thesis
    by (simp add: reset_emulator_def setup_keeps_def stop_def CPU_init_simps)
qed

lemma update_flags_P_byte:
  assumes "is_byte (registers s P)"
  shows "is_byte (registers (update_flags v s) P)"
proof -
  let ?p0 = "registers s P AND 0x7D"
  have p0: "0 \<le> ?p0" "?p0 < 2 ^ 8" using assms by (simp_all add: is_byte_def AND_upper2'')
  have or_byte: "0 \<le> a OR b \<and> a OR b < 2 ^ 8" if "0 \<le> a" "a < 2 ^ 8" "0 \<le> b" "b < 2 ^ 8" for a b :: int
    using that OR_upper[of a 8 b] by simp
  let ?p1 = "if v = 0 then ?p0 OR 0x02 else ?p0"
  have p1: "0 \<le> ?p1 \<and> ?p1 < 2 ^ 8"
    using p0 or_byte[of ?p0 "0x02"] by simp
  let ?p2 = "if v AND 0x80 \<noteq> 0 then ?p1 OR 0x80 else ?p1"
  have "0 \<le> ?p2 \<and> ?p2 < 2 ^ 8"
    using p1 or_byte[of ?p1 "0x80"] by (cases "v AND 0x80 \<noteq> 0") simp_all
  then show ?thesis by (simp add: update_flags_def Let_def is_byte_def)
qed

section \<open>The claims\<close>

subsection \<open>C1: an opcode without a handler\<close>

text \<open>
  C1, as the code has it. Whenever the fetch at \<open>PC\<close> succeeds and yields a byte with no
  entry in the dispatch table, \<open>execute\<close> returns 0 cycles and leaves the registers
  \<open>A\<close>, \<open>X\<close>, \<open>Y\<close>, \<open>SP\<close>, \<open>P\<close>, the memory, the cycle counter and the running flag as
  they were; \<open>PC\<close> is one higher than before, so execution continues at the next byte.
\<close>

theorem execute_unknown_opcode:
  assumes "getitem (memory s) (registers s PC) = Inr op" and "opcodes op = None"
  shows "execute s = Returned 0 (s\<lparr>registers := (registers s)(PC := registers s PC + 1)\<rparr>)"
  using assms by (simp add: execute_def fetch_byte_def)

theorem execute_unknown_opcode_witness:
  "getitem (memory cpu_unknown_opcode) (registers cpu_unknown_opcode PC) = Inr 0xFF \<and>
   opcodes 0xFF = None \<and>
   execute cpu_unknown_opcode =
     Returned 0 (cpu_unknown_opcode\<lparr>registers := (registers cpu_unknown_opcode)(PC := 0x8001)\<rparr>)"
  using execute_unknown_opcode[of cpu_unknown_opcode "0xFF"]
  by (simp add: cpu_unknown_opcode_simps opcodes_def)

text \<open>
  C1 as stated lists \<open>PC\<close> among the registers that stay unchanged. On the fresh CPU with
  the byte \<open>0xFF\<close> at \<open>0x8000\<close> the fetch of the unknown opcode moves \<open>PC\<close> from \<open>0x8000\<close>
  to \<open>0x8001\<close>.
\<close>

theorem unknown_opcode_changes_PC:
  "opcodes 0xFF = None \<and>
   getitem (memory cpu_unknown_opcode) (registers cpu_unknown_opcode PC) = Inr 0xFF \<and>
   registers cpu_unknown_opcode PC = 0x8000 \<and>
   registers (state_of (execute cpu_unknown_opcode)) PC = 0x8001 \<and>
   registers (state_of (execute cpu_unknown_opcode)) PC \<noteq> registers cpu_unknown_opcode PC"
  by (simp add: execute_def fetch_byte_def cpu_unknown_opcode_simps opcodes_def)

subsection \<open>C2: the addresses of instruction fetch\<close>

text \<open>
  C2, as the code has it. In the 64 KiB memory a fetch with \<open>0 \<le> PC \<le> 0xFFFF\<close> reads the
  byte at \<open>PC\<close> and leaves \<open>PC + 1\<close> in \<open>PC\<close>, without wrapping. With \<open>0 \<le> PC \<le> 0xFFFD\<close>,
  \<open>execute\<close> returns without raising, and \<open>PC\<close> is afterwards between 0 and \<open>0x10000\<close> (an
  increment of at most three, or a jump target, which lies in \<open>0..0xFFFF\<close>). With
  \<open>PC \<ge> 0x10000\<close> the fetch, and so \<open>execute\<close>, raises \<^verbatim>\<open>IndexError\<close>.
\<close>

theorem fetch_address_bounds:
  assumes "length (memory s) = 0x10000" and "\<forall>v \<in> set (memory s). is_byte v"
  shows "(0 \<le> registers s PC \<and> registers s PC \<le> 0xFFFF \<longrightarrow>
            fetch_byte s = Returned (memory s ! nat (registers s PC))
              (s\<lparr>registers := (registers s)(PC := registers s PC + 1)\<rparr>)) \<and>
         (0 \<le> registers s PC \<and> registers s PC \<le> 0xFFFD \<longrightarrow>
            is_returned (execute s) \<and>
            0 \<le> registers (state_of (execute s)) PC \<and>
            registers (state_of (execute s)) PC \<le> 0x10000) \<and>
         (0x10000 \<le> registers s PC \<longrightarrow>
            fetch_byte s = Raised IndexError s \<and> execute s = Raised IndexError s)"
  using assms fetch_byte_in_range[of s] execute_returns[of s] execute_past_end[of s]
    fetch_byte_past_end[of s]
  by simp

theorem fetch_address_bounds_witness:
  "length (memory cpu_at_top) = 0x10000 \<and>
   fetch_byte cpu_at_top =
     Returned 0xEA (cpu_at_top\<lparr>registers := (registers cpu_at_top)(PC := 0x10000)\<rparr>) \<and>
   execute (state_of (fetch_byte cpu_at_top)) = Raised IndexError (state_of (fetch_byte cpu_at_top)) \<and>
   is_returned (execute CPU_init) \<and>
   registers (state_of (execute CPU_init)) PC \<le> 0x10000"
proof -
  note b = cpu_at_top_bytes
  note t = fetch_address_bounds[OF cpu_at_top_simps(1) b]
  from t cpu_at_top_simps have f: "fetch_byte cpu_at_top =
     Returned 0xEA (cpu_at_top\<lparr>registers := (registers cpu_at_top)(PC := 0x10000)\<rparr>)"
    by simp
  let ?s = "state_of (fetch_byte cpu_at_top)"
  have l: "length (memory ?s) = 0x10000" and b2: "\<forall>v \<in> set (memory ?s). is_byte v"
    and p: "registers ?s PC = 0x10000"
    using cpu_at_top_simps(1) b by (simp_all add: f)
  from fetch_address_bounds[OF l b2] p have e: "execute ?s = Raised IndexError ?s"
    by simp
  have "length (memory CPU_init) = 0x10000" and "\<forall>v \<in> set (memory CPU_init). is_byte v"
    using cpu_inv_CPU_init by (simp_all add: cpu_inv_def)
  from fetch_address_bounds[OF this]
  have i: "is_returned (execute CPU_init) \<and> registers (state_of (execute CPU_init)) PC \<le> 0x10000"
    by (simp add: CPU_init_def)
  from cpu_at_top_simps(1) f e i show ?thesis by (simp only: simp_thms)
qed

text \<open>
  C2 as stated says that \<open>PC\<close> wraps to 0 after \<open>0xFFFF\<close> and that \<open>execute\<close> can never
  raise an out-of-bounds error. With \<open>PC = 0xFFFF\<close> and a \<^verbatim>\<open>NOP\<close> there the fetch succeeds,
  but leaves \<open>PC = 0x10000\<close>, not 0, and the next \<open>execute\<close> raises \<^verbatim>\<open>IndexError\<close>.
\<close>

theorem PC_does_not_wrap:
  "registers cpu_at_top PC = 0xFFFF \<and>
   is_returned (fetch_byte cpu_at_top) \<and>
   registers (state_of (fetch_byte cpu_at_top)) PC = 0x10000 \<and>
   registers (state_of (fetch_byte cpu_at_top)) PC \<noteq> 0x0000 \<and>
   registers (state_of (execute cpu_at_top)) PC = 0x10000 \<and>
   execute (state_of (execute cpu_at_top)) = Raised IndexError (state_of (execute cpu_at_top))"
  using fetch_byte_in_range[of cpu_at_top] execute_past_end[of "state_of (execute cpu_at_top)"]
  by (simp add: execute_cpu_at_top cpu_at_top_simps)

subsection \<open>C3: the Zero and Negative flags\<close>

text \<open>
  C3. \<open>P\<close> is an eight-bit register: it is 0 in a fresh CPU, only \<open>update_flags\<close>
  assigns it, and \<open>update_flags\<close> leaves a byte in it. For every value \<open>v\<close> and every byte
  in \<open>P\<close>, after \<open>update_flags v\<close> bit 1 of \<open>P\<close> (Zero) is set iff \<open>v = 0\<close>, bit 7
  (Negative) is set iff \<open>v & 0x80\<close> is nonzero, whatever the two bits were before, every
  other bit of \<open>P\<close> is as before, and nothing else in the CPU changes. (The mask \<open>0x7D\<close>
  with which the two flags are cleared has no bit above bit 7 either; a byte has none
  to lose.)
\<close>

theorem update_flags_zero_negative:
  assumes "is_byte (registers s P)"
  shows "(bit (registers (update_flags v s) P) 1 \<longleftrightarrow> v = 0) \<and>
         (bit (registers (update_flags v s) P) 7 \<longleftrightarrow> v AND 0x80 \<noteq> 0) \<and>
         (\<forall>n. n \<noteq> 1 \<and> n \<noteq> 7 \<longrightarrow>
            bit (registers (update_flags v s) P) n = bit (registers s P) n) \<and>
         (\<forall>r. r \<noteq> P \<longrightarrow> registers (update_flags v s) r = registers s r) \<and>
         memory (update_flags v s) = memory s \<and>
         clock_cycles (update_flags v s) = clock_cycles s \<and>
         running (update_flags v s) = running s \<and>
         is_byte (registers (update_flags v s) P)"
proof -
  have "bit (registers (update_flags v s) P) n = bit (registers s P) n"
    if "n \<noteq> 1 \<and> n \<noteq> 7" for n
    using that byte_high_bits[of "registers s P" n] assms
    by (cases "n < 7") (auto simp: update_flags_P_bit is_byte_def)
  moreover have "registers (update_flags v s) r = registers s r" if "r \<noteq> P" for r
    using that by (simp add: update_flags_def Let_def)
  ultimately show ?thesis
    using update_flags_P_byte[OF assms, of v]
    by (simp add: update_flags_P_bit) (simp add: update_flags_def Let_def)
qed

theorem update_flags_zero_negative_witness:
  "is_byte (registers cpu_flags_7F P) \<and>
   registers cpu_flags_7F P = 0x7F \<and>
   registers (update_flags 0x80 cpu_flags_7F) P = 0xFD \<and>
   \<not> bit (registers (update_flags 0x80 cpu_flags_7F) P) 1 \<and>
   bit (registers (update_flags 0x80 cpu_flags_7F) P) 7 \<and>
   bit (registers (update_flags 0x80 cpu_flags_7F) P) 6 = bit (registers cpu_flags_7F P) 6 \<and>
   registers (update_flags 0x80 cpu_flags_7F) A = registers cpu_flags_7F A"
  using update_flags_zero_negative[of cpu_flags_7F "0x80"]
  by (simp add: cpu_flags_7F_def CPU_init_def is_byte_def update_flags_def)

subsection \<open>C4: BRK and the frame scheduler\<close>

text \<open>
  C4, as the code has it. \<^verbatim>\<open>BRK\<close> (opcode \<open>0x00\<close>) sets \<^verbatim>\<open>running\<close> of the CPU to false
  and costs 7 cycles. After that, for as long as that flag stays false, a frame tick
  of a running emulator makes no call of \<open>execute\<close> and leaves the CPU as it is, yet it
  still renders once and schedules the next tick; a tick of a paused emulator does
  nothing at all. \<open>start\<close> on a paused emulator sets the flag of the CPU back to true
  and runs a frame, which begins with a call of \<open>execute\<close>; \<open>start\<close> on a running emulator
  does nothing. \<open>reset_emulator\<close> returns with a rebuilt CPU, whose flag is true, in a
  paused emulator.
\<close>

theorem BRK_halts_until_restarted:
  "(0 \<le> registers s PC \<and> registers s PC < int (length (memory s)) \<and>
    memory s ! nat (registers s PC) = 0x00 \<longrightarrow>
      execute s =
        Returned 7 (s\<lparr>registers := (registers s)(PC := registers s PC + 1),
                       running := False,
                       clock_cycles := clock_cycles s + 7\<rparr>)) \<and>
   (emu_running e \<and> \<not> running (cpu e) \<and> wf_ppu (ppu e) \<longrightarrow>
      run_frame e =
        Returned () (e\<lparr>ppu := state_of (render_frame (ppu e)),
                        trace := trace e @ [Render, Schedule]\<rparr>)) \<and>
   (\<not> emu_running e \<longrightarrow>
      run_frame e = Returned () e \<and>
      start e = run_frame (e\<lparr>emu_running := True, cpu := (cpu e)\<lparr>running := True\<rparr>\<rparr>) \<and>
      (\<exists>t. trace (state_of (start e)) = trace e @ Exec # t)) \<and>
   (emu_running e \<longrightarrow> start e = Returned () e) \<and>
   (wf_ppu (ppu e) \<longrightarrow>
      is_returned (reset_emulator e) \<and>
      running (cpu (state_of (reset_emulator e))) \<and>
      \<not> emu_running (state_of (reset_emulator e)))"
proof -
  have "\<exists>t. trace (state_of (start e)) = trace e @ Exec # t" if "\<not> emu_running e"
    using that run_frame_first_call[of "e\<lparr>emu_running := True, cpu := (cpu e)\<lparr>running := True\<rparr>\<rparr>"]
    by (simp add: start_def)
  then show ?thesis
    using execute_BRK[of s] halted_frame[of e] reset_emulator_ok[of e]
    by (simp add: start_def run_frame_def)
qed


theorem BRK_halts_until_restarted_witness:
  "execute CPU_init =
     Returned 7 (CPU_init\<lparr>registers := (registers CPU_init)(PC := 0x8001),
                    running := False, clock_cycles := 7\<rparr>) \<and>
   emu_running emu_halted \<and> \<not> running (cpu emu_halted) \<and> wf_ppu (ppu emu_halted) \<and>
   run_frame emu_halted =
     Returned () (emu_halted\<lparr>ppu := state_of (render_frame (ppu emu_halted)),
                     trace := [Exec, Render, Schedule, Render, Schedule]\<rparr>) \<and>
   start emu_halted = Returned () emu_halted \<and>
   \<not> emu_running (stop emu_halted_tick) \<and>
   run_frame (stop emu_halted_tick) = Returned () (stop emu_halted_tick) \<and>
   (\<exists>t. trace (state_of (start (stop emu_halted_tick))) =
          [Exec, Render, Schedule, Render, Schedule] @ Exec # t) \<and>
   is_returned (reset_emulator emu_halted) \<and>
   running (cpu (state_of (reset_emulator emu_halted))) \<and>
   \<not> emu_running (state_of (reset_emulator emu_halted))"
proof -
  note t1 = BRK_halts_until_restarted[of CPU_init emu_halted]
  note t2 = BRK_halts_until_restarted[of CPU_init "stop emu_halted_tick"]
  have h: "emu_running emu_halted" "\<not> running (cpu emu_halted)" "wf_ppu (ppu emu_halted)"
    by (simp_all add: emu_halted_simps)
  have p: "\<not> emu_running (stop emu_halted_tick)"
    and tr: "trace (stop emu_halted_tick) = [Exec, Render, Schedule, Render, Schedule]"
    by (simp_all add: stop_def emu_halted_tick_simps)
  from t1 have 1: "execute CPU_init =
     Returned 7 (CPU_init\<lparr>registers := (registers CPU_init)(PC := 0x8001),
                    running := False, clock_cycles := 7\<rparr>)"
    by (simp add: CPU_init_simps)
  from t1 h have 2: "run_frame emu_halted =
     Returned () (emu_halted\<lparr>ppu := state_of (render_frame (ppu emu_halted)),
                     trace := [Exec, Render, Schedule, Render, Schedule]\<rparr>)"
    by (simp add: emu_halted_simps(4))
  from t1 h have 3: "start emu_halted = Returned () emu_halted"
    by blast
  from t2 p have 4: "run_frame (stop emu_halted_tick) = Returned () (stop emu_halted_tick)"
    by blast
  from t2 p have "\<exists>t. trace (state_of (start (stop emu_halted_tick))) =
      trace (stop emu_halted_tick) @ Exec # t"
    by blast
  then have 5: "\<exists>t. trace (state_of (start (stop emu_halted_tick))) =
          [Exec, Render, Schedule, Render, Schedule] @ Exec # t"
    by (simp only: tr)
  from t1 h have 6: "is_returned (reset_emulator emu_halted) \<and>
      running (cpu (state_of (reset_emulator emu_halted))) \<and>
      \<not> emu_running (state_of (reset_emulator emu_halted))"
    by blast
  from 1 h 2 3 p 4 5 6 show ?thesis by (simp only: simp_thms)
qed

text \<open>
  C4 as stated says that after \<^verbatim>\<open>BRK\<close> no frame tick is rescheduled and that \<open>start\<close>
  alone does not clear the halt. In the session above the first frame executes \<^verbatim>\<open>BRK\<close>
  (7 cycles; the CPU halts) and the emulator stays running; the tick it scheduled
  renders and schedules a further tick; and after \<^verbatim>\<open>Pause\<close>, \<^verbatim>\<open>Start\<close> calls \<open>execute\<close> again
  (the cycle counter reaches 14), with no reset in between.
\<close>

theorem halted_emulator_goes_on:
  "\<not> running (cpu emu_halted) \<and> clock_cycles (cpu emu_halted) = 7 \<and>
   emu_running emu_halted \<and>
   trace emu_halted = [Exec, Render, Schedule] \<and>
   trace emu_halted_tick = [Exec, Render, Schedule, Render, Schedule] \<and>
   trace emu_restarted = [Exec, Render, Schedule, Render, Schedule, Exec, Render, Schedule] \<and>
   clock_cycles (cpu emu_restarted) = 14"
  by (simp add: emu_halted_simps emu_halted_tick_simps emu_restarted_def emu_restarted_eq)

subsection \<open>C5: decoding one pixel of a tile row\<close>



subsection \<open>C6: a frame of NOPs\<close>

text \<open>
  C6. In a running emulator whose CPU has not halted, if the 682 bytes from \<open>PC\<close> on
  are all \<^verbatim>\<open>NOP\<close> (\<open>0xEA\<close>, two cycles each), one frame tick calls \<open>execute\<close> exactly
  682 times, which is \<open>1364 div 2\<close>: the loop stops when the count first reaches the
  budget of 1364 cycles, with \<open>PC\<close> 682 bytes further and the cycle counter 1364 higher.
  Then it calls \<open>render_frame\<close> exactly once and schedules the next tick.
\<close>

theorem nop_frame_executes_682:
  assumes "emu_running e" and "running (cpu e)" and "wf_ppu (ppu e)"
    and "0 \<le> registers (cpu e) PC"
    and "registers (cpu e) PC + 682 \<le> int (length (memory (cpu e)))"
    and "\<forall>k. 0 \<le> k \<and> k < 682 \<longrightarrow> memory (cpu e) ! nat (registers (cpu e) PC + k) = 0xEA"
  shows "run_frame e =
     Returned ()
       (e\<lparr>cpu := (cpu e)\<lparr>registers := (registers (cpu e))(PC := registers (cpu e) PC + 682),
                           clock_cycles := clock_cycles (cpu e) + 1364\<rparr>,
          ppu := state_of (render_frame (ppu e)),
          trace := trace e @ replicate 682 Exec @ [Render, Schedule]\<rparr>)"
proof -
  let ?e1 = "e\<lparr>cpu := (cpu e)\<lparr>registers := (registers (cpu e))(PC := registers (cpu e) PC + int 682),
                           clock_cycles := clock_cycles (cpu e) + 2 * int 682\<rparr>,
          trace := trace e @ replicate 682 Exec\<rparr>"
  have 1: "cpu_loop 0 e = Returned target_cycles ?e1"
    using assms by (intro cpu_loop_nops) (simp_all add: target_cycles_def)
  have 2: "then_do (on_ppu render_frame (?e1\<lparr>trace := trace ?e1 @ [Render]\<rparr>))
           (\<lambda>u e. Returned () (e\<lparr>trace := trace e @ [Schedule]\<rparr>)) =
         Returned () (?e1\<lparr>ppu := state_of (render_frame (ppu ?e1)),
                         trace := trace ?e1 @ [Render, Schedule]\<rparr>)"
    using assms(3) by (intro render_and_schedule) simp
  show ?thesis
    using assms(1) 2 by (simp add: run_frame_def 1)
qed

theorem nop_frame_executes_682_witness:
  "emu_running emu_nops \<and> running (cpu emu_nops) \<and> wf_ppu (ppu emu_nops) \<and>
   registers (cpu emu_nops) PC = 0x8000 \<and>
   memory (cpu emu_nops) ! 0x8000 = 0xEA \<and> memory (cpu emu_nops) ! 0x82A9 = 0xEA \<and>
   trace (state_of (run_frame emu_nops)) = replicate 682 Exec @ [Render, Schedule] \<and>
   registers (cpu (state_of (run_frame emu_nops))) PC = 0x82AA \<and>
   clock_cycles (cpu (state_of (run_frame emu_nops))) = 1364"
proof -
  have "\<forall>k. 0 \<le> k \<and> k < 682 \<longrightarrow>
          memory (cpu emu_nops) ! nat (registers (cpu emu_nops) PC + k) = 0xEA"
    using emu_nops_page by (simp add: emu_nops_simps)
  from nop_frame_executes_682[OF emu_nops_simps(1,2,3) _ _ this]
  have "run_frame emu_nops =
     Returned ()
       (emu_nops\<lparr>cpu := (cpu emu_nops)\<lparr>registers := (registers (cpu emu_nops))(PC := 0x82AA),
                           clock_cycles := 1364\<rparr>,
          ppu := state_of (render_frame (ppu emu_nops)),
          trace := replicate 682 Exec @ [Render, Schedule]\<rparr>)"
    by (simp add: emu_nops_simps)
  moreover have "memory (cpu emu_nops) ! 0x8000 = 0xEA" "memory (cpu emu_nops) ! 0x82A9 = 0xEA"
    using emu_nops_page[of 0] emu_nops_page[of "0x2A9"] by simp_all
  ultimately show ?thesis by (simp add: emu_nops_simps)
qed

subsection \<open>C7: JMP absolute\<close>

text \<open>
  C7. Wherever \<open>PC\<close> stands, if the three bytes there are opcode \<open>0x4C\<close> and a
  little-endian address \<open>target\<close>, then \<open>execute\<close> returns 3 cycles and sets \<open>PC\<close> to exactly
  \<open>target\<close>, changing nothing else but the cycle counter. Executing the same \<^verbatim>\<open>JMP\<close> again
  from the resulting state, at whichever address \<open>pc\<close> the instruction is found (the
  one it was executed at, or \<open>target\<close> itself when it jumps to itself), yields the same
  \<open>PC\<close>.
\<close>

theorem JMP_absolute_sets_PC:
  assumes "jmp_at s (registers s PC) target"
  shows "execute s =
           Returned 3 (s\<lparr>registers := (registers s)(PC := target),
                          clock_cycles := clock_cycles s + 3\<rparr>) \<and>
         (\<forall>pc. jmp_at s pc target \<longrightarrow>
            registers (state_of (execute
              ((state_of (execute s))\<lparr>registers := (registers (state_of (execute s)))(PC := pc)\<rparr>))) PC
            = target)"
proof -
  have step: "execute t =
      Returned 3 (t\<lparr>registers := (registers t)(PC := target), clock_cycles := clock_cycles t + 3\<rparr>)"
    if "jmp_at t (registers t PC) target" for t
  proof -
    let ?pc = "registers t PC"
    let ?t1 = "t\<lparr>registers := (registers t)(PC := ?pc + 1)\<rparr>"
    from that have f: "fetch_byte t = Returned 0x4C ?t1"
      using fetch_byte_in_range[of t] by (simp add: jmp_at_def)
    from that have "fetch_addr ?t1 =
        Returned target (?t1\<lparr>registers := (registers ?t1)(PC := registers ?t1 PC + 2)\<rparr>)"
      using fetch_addr_in_range[of ?t1] by (simp add: jmp_at_def add.commute)
    then have "JMP_absolute ?t1 = Returned 3 (t\<lparr>registers := (registers t)(PC := target)\<rparr>)"
      by (simp add: JMP_absolute_def)
    with f show ?thesis by (simp add: execute_def opcodes_simps)
  qed
  have first: "execute s =
      Returned 3 (s\<lparr>registers := (registers s)(PC := target), clock_cycles := clock_cycles s + 3\<rparr>)"
    by (rule step[OF assms])
  have "registers (state_of (execute
              ((state_of (execute s))\<lparr>registers := (registers (state_of (execute s)))(PC := pc)\<rparr>))) PC
            = target" if "jmp_at s pc target" for pc
  proof -
    let ?u = "(state_of (execute s))\<lparr>registers := (registers (state_of (execute s)))(PC := pc)\<rparr>"
    have "jmp_at ?u (registers ?u PC) target"
      using that by (simp add: first jmp_at_def)
    from step[OF this] show ?thesis by simp
  qed
  with first show ?thesis by blast
qed

theorem JMP_absolute_sets_PC_witness:
  "jmp_at cpu_jmp (registers cpu_jmp PC) 0x8000 \<and>
   execute cpu_jmp =
     Returned 3 (cpu_jmp\<lparr>registers := (registers cpu_jmp)(PC := 0x8000), clock_cycles := 3\<rparr>) \<and>
   registers (state_of (execute
     ((state_of (execute cpu_jmp))\<lparr>registers := (registers (state_of (execute cpu_jmp)))(PC := 0x9000)\<rparr>))) PC
     = 0x8000"
proof -
  have j: "jmp_at cpu_jmp (registers cpu_jmp PC) 0x8000"
    by (simp add: cpu_jmp_simps)
  have c: "clock_cycles cpu_jmp = 0"
    by (simp add: cpu_jmp_def CPU_init_def)
  note t = JMP_absolute_sets_PC[OF j]
  from t have a: "execute cpu_jmp =
      Returned 3 (cpu_jmp\<lparr>registers := (registers cpu_jmp)(PC := 0x8000),
        clock_cycles := clock_cycles cpu_jmp + 3\<rparr>)"
    by (rule conjunct1)
  from t cpu_jmp_simps(2) have b: "registers (state_of (execute
     ((state_of (execute cpu_jmp))\<lparr>registers := (registers (state_of (execute cpu_jmp)))(PC := 0x9000)\<rparr>))) PC
     = 0x8000"
    by blast
  from j a b c show ?thesis
    by simp
qed

subsection \<open>C8: reset\<close>

text \<open>
  C8. With the 64 KiB memory of the CPU, \<open>reset\<close> returns normally and sets \<open>PC\<close> to the
  little-endian word at \<open>0xFFFC\<close>, that is, the byte at \<open>0xFFFC\<close> plus 256 times the byte
  at \<open>0xFFFD\<close>; the other registers, the memory, the cycle counter and the running flag
  are those of the state before.
\<close>

theorem reset_loads_vector:
  assumes "length (memory s) = 0x10000" and "is_byte (memory s ! 0xFFFC)"
  shows "reset s =
     Returned () (s\<lparr>registers := (registers s)(PC := memory s ! 0xFFFC + 256 * memory s ! 0xFFFD)\<rparr>)"
  using assms by (simp add: reset_def read_word_def getitem_nonneg word_of_bytes add.commute)


theorem reset_loads_vector_witness:
  "length (memory cpu_vector_9000) = 0x10000 \<and> is_byte (memory cpu_vector_9000 ! 0xFFFC) \<and>
   reset cpu_vector_9000 =
     Returned () (cpu_vector_9000\<lparr>registers := (registers cpu_vector_9000)(PC := 0x9000)\<rparr>)"
  using reset_loads_vector[of cpu_vector_9000]
  by (simp add: cpu_vector_9000_eq CPU_init_def is_byte_def)

subsection \<open>C9: the indices used by a render pass\<close>

text \<open>
  C9. For a PPU with its 32 KiB of video memory, whatever bytes the tile map and the
  patterns hold, and a palette of at least four entries (it has 256 at construction
  and 4 after \<^verbatim>\<open>setup_test_environment\<close>), \<open>render_frame\<close> returns without raising, and
  every subscript it evaluates is in bounds: each tile-map read is at an offset from
  0 to 895, each pattern read at an offset from 0 to 4095, and each palette index is
  1, 2 or 3.
\<close>

theorem render_frame_accesses_in_bounds:
  assumes "wf_ppu p"
  shows "is_returned (render_frame p) \<and>
         (\<exists>log. accesses (state_of (render_frame p)) = accesses p @ log \<and>
                (\<forall>a \<in> set log. access_ok a))"
  using render_frame_ok[OF assms] by (simp add: renders_from_def)

theorem render_frame_accesses_in_bounds_witness:
  "wf_ppu PPU_init \<and> is_returned (render_frame PPU_init) \<and>
   (\<exists>log. accesses (state_of (render_frame PPU_init)) = accesses PPU_init @ log \<and>
          (\<forall>a \<in> set log. access_ok a))"
  using render_frame_accesses_in_bounds[OF wf_ppu_PPU_init] wf_ppu_PPU_init
  by (simp only: simp_thms)

subsection \<open>C10: memory cells and the accumulator stay bytes\<close>

text \<open>
  C10. On a CPU whose memory is the 64 KiB byte array and whose accumulator holds a byte
  (as in a fresh CPU), \<open>write_byte\<close> stores \<open>value & 0xFF\<close>, that is \<open>value mod 256\<close>, and
  \<open>write_word\<close> stores the low byte and then \<open>(value >> 8) & 0xFF\<close>, for every integer
  value; and after any sequence of calls of \<open>execute\<close>, \<open>write_byte\<close> and \<open>write_word\<close>, with
  any arguments and whether or not some of them raise, every memory cell and the
  register \<open>A\<close> hold a value from 0 to 255 (and the memory still has its 65536 cells).
\<close>

theorem memory_and_A_stay_bytes:
  assumes "cpu_inv s"
  shows "length (memory (run_calls calls s)) = 0x10000 \<and>
         (\<forall>v \<in> set (memory (run_calls calls s)). 0 \<le> v \<and> v \<le> 255) \<and>
         0 \<le> registers (run_calls calls s) A \<and> registers (run_calls calls s) A \<le> 255 \<and>
         (\<forall>a v. 0 \<le> a \<and> a < 0x10000 \<longrightarrow>
            write_byte a v s = Returned () (s\<lparr>memory := (memory s)[nat a := v mod 256]\<rparr>)) \<and>
         (\<forall>a v. 0 \<le> a \<and> a + 1 < 0x10000 \<longrightarrow>
            write_word a v s =
              Returned () (s\<lparr>memory := (memory s)[nat a := v mod 256,
                                                    nat (a + 1) := v div 256 mod 256]\<rparr>))"
proof -
  have "cpu_inv (run_calls calls s)"
    using assms by (induction calls arbitrary: s) (simp_all add: cpu_inv_do_call)
  then have "length (memory (run_calls calls s)) = 0x10000 \<and>
         (\<forall>v \<in> set (memory (run_calls calls s)). 0 \<le> v \<and> v \<le> 255) \<and>
         0 \<le> registers (run_calls calls s) A \<and> registers (run_calls calls s) A \<le> 255"
    by (simp add: cpu_inv_def is_byte_def) force
  moreover have "length (memory s) = 0x10000"
    using assms by (simp add: cpu_inv_def)
  ultimately show ?thesis
    by (simp add: write_byte_in_range write_word_in_range)
qed

theorem memory_and_A_stay_bytes_witness:
  "cpu_inv CPU_init \<and>
   run_calls calls_example CPU_init =
     CPU_init\<lparr>memory := (memory CPU_init)[0xFFFC := 0x45, 0xFFFD := 0x23, 0x8000 := 0xFF],
       registers := (registers CPU_init)(PC := 0x8001)\<rparr> \<and>
   length (memory (run_calls calls_example CPU_init)) = 0x10000 \<and>
   is_byte (memory (run_calls calls_example CPU_init) ! 0x8000) \<and>
   is_byte (registers (run_calls calls_example CPU_init) A) \<and>
   write_byte 0x0300 0x142 CPU_init =
     Returned () (CPU_init\<lparr>memory := (memory CPU_init)[0x0300 := 0x42]\<rparr>) \<and>
   write_word 0xFFFC 0x9000 CPU_init =
     Returned () (CPU_init\<lparr>memory := (memory CPU_init)[0xFFFC := 0x00, 0xFFFD := 0x90]\<rparr>)"
proof -
  note t = memory_and_A_stay_bytes[OF cpu_inv_CPU_init, of calls_example]
  from t have len: "length (memory (run_calls calls_example CPU_init)) = 0x10000"
    by blast
  from t have "\<forall>v \<in> set (memory (run_calls calls_example CPU_init)). 0 \<le> v \<and> v \<le> 255"
    by blast
  moreover from len have "memory (run_calls calls_example CPU_init) ! 0x8000
      \<in> set (memory (run_calls calls_example CPU_init))"
    by (intro nth_mem) simp
  ultimately have b: "is_byte (memory (run_calls calls_example CPU_init) ! 0x8000)"
    by (simp add: is_byte_def) force
  from t have a: "is_byte (registers (run_calls calls_example CPU_init) A)"
    by (simp add: is_byte_def)
  from t have "0 \<le> (0x0300::int) \<and> (0x0300::int) < 0x10000 \<longrightarrow>
      write_byte 0x0300 0x142 CPU_init =
        Returned () (CPU_init\<lparr>memory := (memory CPU_init)[nat 0x0300 := 0x142 mod 256]\<rparr>)"
    by blast
  then have w1: "write_byte 0x0300 0x142 CPU_init =
     Returned () (CPU_init\<lparr>memory := (memory CPU_init)[0x0300 := 0x42]\<rparr>)"
    by simp
  from t have "0 \<le> (0xFFFC::int) \<and> (0xFFFC::int) + 1 < 0x10000 \<longrightarrow>
      write_word 0xFFFC 0x9000 CPU_init =
        Returned () (CPU_init\<lparr>memory := (memory CPU_init)[nat 0xFFFC := 0x9000 mod 256,
           nat (0xFFFC + 1) := 0x9000 div 256 mod 256]\<rparr>)"
    by blast
  then have w2: "write_word 0xFFFC 0x9000 CPU_init =
     Returned () (CPU_init\<lparr>memory := (memory CPU_init)[0xFFFC := 0x00, 0xFFFD := 0x90]\<rparr>)"
    by simp
  from cpu_inv_CPU_init run_calls_example len b a w1 w2 show ?thesis
    by (simp only: simp_thms)
qed


end
